theory Spec2Isabelle
  imports Main "HOL-Library.Multiset"
begin

section \<open>Data model\<close>

text \<open>
  The reviewers exchange plain Python dictionaries. An issue is a dictionary with the keys
  \<open>file\<close>, \<open>message\<close>, \<open>severity\<close>, \<open>type\<close> and, depending on the detector, \<open>line\<close>,
  \<open>code\<close> and \<open>suggestion\<close>. A key that a detector may leave out is an \<open>option\<close> field:
  \<open>None\<close> is the absent key. The key \<open>type\<close> is the field \<open>issue_type\<close> and the key \<open>file\<close>
  the field \<open>file_path\<close>. Python integers are unbounded, hence \<open>int\<close>. Every
  exception the modelled code can raise is a value of \<open>py_error\<close>.
\<close>

datatype py_error = KeyError

record issue =
  file_path :: string
  line :: "int option"
  message :: string
  severity :: "string option"
  issue_type :: string
  code :: "string option"
  suggestion :: "string option"

text \<open>The dictionary a reviewer's \<open>review\<close> returns: \<open>{'issues': ..., 'count': ...}\<close>.\<close>

record results =
  issues :: "issue list option"
  count :: "int option"

text \<open>The dictionary \<open>_generate_summary\<close> returns.\<close>

record summary =
  total_issues :: int
  issues_by_severity :: "(string \<times> int) list"
  score :: int
  verdict :: string

section \<open>Exceptions\<close>

text \<open>A computation that may raise returns \<open>Inl\<close> of the exception; \<open>bind_err\<close>
  sequences two such computations, the first exception ending the run.\<close>

definition bind_err :: "'e + 'a \<Rightarrow> ('a \<Rightarrow> 'e + 'b) \<Rightarrow> 'e + 'b" where
  "bind_err m f = (case m of Inl e \<Rightarrow> Inl e | Inr x \<Rightarrow> f x)"

section \<open>Dictionaries with string keys\<close>

text \<open>
  A Python \<open>dict\<close> keeps its keys in insertion order, so it is an association list.
  \<open>d[k]\<close> raises \<open>KeyError\<close> on a missing key, and so does \<open>d[k] += 1\<close>.
\<close>

definition dict_get :: "('k \<times> 'v) list \<Rightarrow> 'k \<Rightarrow> py_error + 'v" where
  "dict_get d k = (case map_of d k of None \<Rightarrow> Inl KeyError | Some v \<Rightarrow> Inr v)"

fun dict_incr :: "('k \<times> int) list \<Rightarrow> 'k \<Rightarrow> py_error + ('k \<times> int) list" where
  "dict_incr [] k = Inl KeyError"
| "dict_incr ((k', v) # rest) k =
     (if k' = k then Inr ((k', v + 1) # rest)
      else (case dict_incr rest k of Inl e \<Rightarrow> Inl e | Inr rest' \<Rightarrow> Inr ((k', v) # rest')))"

section \<open>Review aggregation: \<open>ReviewManager\<close>\<close>

text \<open>\<open>results.get('issues', [])\<close>\<close>

definition get_issues :: "results \<Rightarrow> issue list" where
  "get_issues r = (case issues r of None \<Rightarrow> [] | Some l \<Rightarrow> l)"

text \<open>\<open>issue.get('severity', 'info')\<close>\<close>

definition get_severity :: "issue \<Rightarrow> string" where
  "get_severity i = (case severity i of None \<Rightarrow> ''info'' | Some s \<Rightarrow> s)"

text \<open>One of the three counting loops of \<open>_generate_summary\<close>:
  \<open>for issue in ...: severity = issue.get('severity', 'info'); issues[severity] += 1\<close>.\<close>

fun count_issues :: "(string \<times> int) list \<Rightarrow> issue list \<Rightarrow> py_error + (string \<times> int) list" where
  "count_issues d [] = Inr d"
| "count_issues d (i # rest) =
     (case dict_incr d (get_severity i) of
        Inl e \<Rightarrow> Inl e
      | Inr d' \<Rightarrow> count_issues d' rest)"

definition get_verdict :: "int \<Rightarrow> string" where
  "get_verdict s =
     (if s \<ge> 90 then ''Excellent code quality. Approved!''
      else if s \<ge> 80 then ''Good code quality with minor issues.''
      else if s \<ge> 70 then ''Acceptable code quality but needs improvement.''
      else if s \<ge> 50 then ''Poor code quality. Significant improvements needed.''
      else ''Critical issues found. Must be fixed before merging.'')"

text \<open>The score of \<open>_generate_summary\<close>, from the filled dictionary and the total.\<close>

definition compute_score :: "(string \<times> int) list \<Rightarrow> int \<Rightarrow> py_error + int" where
  "compute_score d n_total =
     (if n_total > 0 then
        bind_err (dict_get d ''critical'') (\<lambda>c.
        bind_err (dict_get d ''high'') (\<lambda>h.
        bind_err (dict_get d ''medium'') (\<lambda>m.
        bind_err (dict_get d ''low'') (\<lambda>l.
          Inr (max 0 (min 100 (100 - c * 10 - h * 5 - m * 2 - l * 1)))))))
      else Inr 100)"

definition generate_summary :: "results \<Rightarrow> results \<Rightarrow> results \<Rightarrow> py_error + summary" where
  "generate_summary style_results security_results quality_results =
     bind_err (count_issues
             [(''critical'', 0), (''high'', 0), (''medium'', 0), (''low'', 0), (''info'', 0)]
             (get_issues style_results)) (\<lambda>d1.
     bind_err (count_issues d1 (get_issues security_results)) (\<lambda>d2.
     bind_err (count_issues d2 (get_issues quality_results)) (\<lambda>d3.
       (let n_total = sum_list (map snd d3) in
        bind_err (compute_score d3 n_total) (\<lambda>sc.
          Inr \<lparr>total_issues = n_total, issues_by_severity = d3, score = sc,
               verdict = get_verdict sc\<rparr>)))))"

section \<open>Vocabulary of the statements\<close>

text \<open>The five severities of the data model, and the number of issues of a collection
  that are counted under a severity.\<close>

definition severities :: "string list" where
  "severities = [''critical'', ''high'', ''medium'', ''low'', ''info'']"

definition well_formed :: "issue list \<Rightarrow> bool" where
  "well_formed xs = list_all (\<lambda>i. get_severity i \<in> set severities) xs"

definition count_severity :: "string \<Rightarrow> issue list \<Rightarrow> int" where
  "count_severity k xs = int (length (filter (\<lambda>i. get_severity i = k) xs))"

definition clamp :: "int \<Rightarrow> int \<Rightarrow> int \<Rightarrow> int" where
  "clamp x lo hi = (if x < lo then lo else if hi < x then hi else x)"

definition mk_results :: "issue list \<Rightarrow> results" where
  "mk_results xs = \<lparr>issues = Some xs, count = Some (int (length xs))\<rparr>"

text \<open>The score the specification assigns to a collection of issues.\<close>

definition the_score :: "issue list \<Rightarrow> int" where
  "the_score xs =
     clamp (100 - 10 * count_severity ''critical'' xs - 5 * count_severity ''high'' xs
                - 2 * count_severity ''medium'' xs - 1 * count_severity ''low'' xs) 0 100"

text \<open>An issue as a detector builds it, for the concrete runs below.\<close>

definition sample_issue :: "string \<Rightarrow> int option \<Rightarrow> string option \<Rightarrow> issue" where
  "sample_issue f l s =
     \<lparr>file_path = f, line = l, message = ''finding'', severity = s,
      issue_type = ''quality'', code = None, suggestion = None\<rparr>"

section \<open>Text\<close>

text \<open>
  Text is a list of characters read as code points below 256. \<open>str(n)\<close> of a Python
  integer is its decimal numeral, with a minus sign when negative.
\<close>

definition digit_char :: "nat \<Rightarrow> char" where
  "digit_char d = ''0123456789'' ! d"

fun str_nat :: "nat \<Rightarrow> string" where
  "str_nat n = (if n < 10 then [digit_char n] else str_nat (n div 10) @ [digit_char (n mod 10)])"

declare str_nat.simps [simp del]

definition str_int :: "int \<Rightarrow> string" where
  "str_int i = (if i < 0 then CHR ''-'' # str_nat (nat (- i)) else str_nat (nat i))"

text \<open>\<open>str.upper\<close>, on the ASCII letters.\<close>

definition upper_char :: "char \<Rightarrow> char" where
  "upper_char c = (let n = (of_char c :: int) in if 97 \<le> n \<and> n \<le> 122 then char_of (n - 32) else c)"

definition upper :: "string \<Rightarrow> string" where
  "upper s = map upper_char s"

text \<open>
  Iterating over a file opened in text mode yields its lines: a line ends at \<open>\n\<close>, at
  \<open>\r\<close> or at \<open>\r\n\<close> (universal newlines, each read as \<open>\n\<close>); text after
  the last line end is a last line when it is not empty. \<open>file_iter acc cs\<close> has read
  \<open>acc\<close> of the current line and \<open>cs\<close> is still to be read.
\<close>

fun file_iter :: "string \<Rightarrow> string \<Rightarrow> string list" where
  "file_iter acc [] = (if acc = [] then [] else [acc])"
| "file_iter acc (c # cs) =
     (if c = CHR 0x0A then (acc @ [CHR 0x0A]) # file_iter [] cs
      else if c = CHR 0x0D then
        (case cs of
           [] \<Rightarrow> [acc @ [CHR 0x0A]]
         | d # ds \<Rightarrow> if d = CHR 0x0A then (acc @ [CHR 0x0A]) # file_iter [] ds
                    else (acc @ [CHR 0x0A]) # file_iter [] cs)
      else file_iter (acc @ [c]) cs)"

text \<open>\<open>count_lines\<close> of \<open>file_utils\<close>: \<open>sum(1 for _ in f)\<close>, on the text of the file.\<close>

definition count_lines :: "string \<Rightarrow> int" where
  "count_lines content = int (length (file_iter [] content))"

section \<open>Quality review: \<open>QualityReviewer\<close>\<close>

text \<open>
  The configuration is a dictionary; \<open>__init__\<close> reads the thresholds from it with
  \<open>config.get(key, default)\<close>. The threshold \<open>duplication\<close>, which no check reads,
  is left out.
\<close>

definition dict_get_default :: "('k \<times> 'v) list \<Rightarrow> 'k \<Rightarrow> 'v \<Rightarrow> 'v" where
  "dict_get_default d k dflt = (case map_of d k of None \<Rightarrow> dflt | Some v \<Rightarrow> v)"

record thresholds =
  function_length :: int
  file_length :: int
  complexity :: int

definition init_thresholds :: "(string \<times> int) list \<Rightarrow> thresholds" where
  "init_thresholds config =
     \<lparr>function_length = dict_get_default config ''function_length'' 50,
      file_length = dict_get_default config ''file_length'' 500,
      complexity = dict_get_default config ''complexity'' 10\<rparr>"

text \<open>\<open>_check_file_length\<close>, on the text of the file at \<open>local_path\<close>.\<close>

definition check_file_length :: "thresholds \<Rightarrow> string \<Rightarrow> string \<Rightarrow> issue list" where
  "check_file_length th content repo_path =
     (let line_count = count_lines content; threshold = file_length th in
      if line_count > threshold then
        [\<lparr>file_path = repo_path, line = None,
          message = ''File is too long ('' @ str_int line_count @ '' lines, threshold: ''
                    @ str_int threshold @ '')'',
          severity = Some ''medium'', issue_type = ''quality'', code = None,
          suggestion = Some ''Consider breaking the file into smaller, more focused modules''\<rparr>]
      else [])"

section \<open>Report rendering: \<open>ReviewManager._format_results\<close>\<close>

text \<open>The dictionary \<open>_run_reviews\<close> returns, and the one \<open>_format_results\<close> returns.\<close>

record review_results =
  style :: results
  security :: results
  quality :: results
  summary :: summary

record formatted_results =
  header :: string
  categories :: "(string \<times> string) list"
  raw_results :: review_results

text \<open>The header block. The five counts are read with \<open>summary['issues_by_severity'][k]\<close>.\<close>

definition format_header :: "summary \<Rightarrow> string \<Rightarrow> py_error + string" where
  "format_header s title =
     bind_err (dict_get (issues_by_severity s) ''critical'') (\<lambda>c.
     bind_err (dict_get (issues_by_severity s) ''high'') (\<lambda>h.
     bind_err (dict_get (issues_by_severity s) ''medium'') (\<lambda>m.
     bind_err (dict_get (issues_by_severity s) ''low'') (\<lambda>l.
     bind_err (dict_get (issues_by_severity s) ''info'') (\<lambda>i.
       Inr (''# Code Review: '' @ title @ ''\<newline>\<newline>''
          @ ''## Summary\<newline>\<newline>''
          @ ''- **Score**: '' @ str_int (score s) @ ''/100\<newline>''
          @ ''- **Verdict**: '' @ verdict s @ ''\<newline>''
          @ ''- **Total Issues**: '' @ str_int (total_issues s) @ ''\<newline>''
          @ ''  - Critical: '' @ str_int c @ '', High: '' @ str_int h @ '', Medium: '' @ str_int m
          @ '', Low: '' @ str_int l @ '', Info: '' @ str_int i @ ''\<newline>\<newline>''))))))"

text \<open>What one round of the loop over a category's issues appends, \<open>sev\<close> being
  \<open>issue['severity']\<close>.\<close>

definition issue_text :: "string \<Rightarrow> issue \<Rightarrow> string" where
  "issue_text sev i =
     ''- **'' @ upper sev @ ''**: '' @ message i @ ''\<newline>''
     @ ''  - File: `'' @ file_path i @ ''`\<newline>''
     @ (case line i of None \<Rightarrow> [] | Some n \<Rightarrow> ''  - Line: '' @ str_int n @ ''\<newline>'')
     @ (case suggestion i of None \<Rightarrow> [] | Some t \<Rightarrow> ''  - Suggestion: '' @ t @ ''\<newline>'')
     @ ''\<newline>''"

text \<open>The loop \<open>for issue in category_issues\<close>; \<open>issue['severity']\<close> raises
  \<open>KeyError\<close> on an issue without severity.\<close>

fun format_issues :: "string \<Rightarrow> issue list \<Rightarrow> py_error + string" where
  "format_issues acc [] = Inr acc"
| "format_issues acc (i # rest) =
     (case severity i of
        None \<Rightarrow> Inl KeyError
      | Some sev \<Rightarrow> format_issues (acc @ issue_text sev i) rest)"

definition format_category :: "string \<Rightarrow> results \<Rightarrow> py_error + string" where
  "format_category title r =
     (let category_issues = get_issues r in
      if category_issues = [] then Inr (title @ ''No issues found.\<newline>\<newline>'')
      else format_issues title category_issues)"

definition format_results :: "review_results \<Rightarrow> string \<Rightarrow> py_error + formatted_results" where
  "format_results rs title =
     bind_err (format_header (summary rs) title) (\<lambda>h.
     bind_err (format_category ''## Style Issues\<newline>\<newline>'' (style rs)) (\<lambda>st.
     bind_err (format_category ''## Security Issues\<newline>\<newline>'' (security rs)) (\<lambda>se.
     bind_err (format_category ''## Code Quality Issues\<newline>\<newline>'' (quality rs)) (\<lambda>qu.
       Inr \<lparr>header = h,
            categories = [(''style'', st), (''security'', se), (''quality'', qu)],
            raw_results = rs\<rparr>))))"

text \<open>
  The order the specification requires of the issues of a report: by file path, then by
  line number with an unset line before any number, then by severity rank, higher first.
  The ranks are those of the data model, \<open>info < low < medium < high < critical\<close>.
\<close>

fun str_less :: "string \<Rightarrow> string \<Rightarrow> bool" where
  "str_less [] [] = False"
| "str_less [] (y # ys) = True"
| "str_less (x # xs) [] = False"
| "str_less (x # xs) (y # ys) =
     ((of_char x :: int) < of_char y \<or> (x = y \<and> str_less xs ys))"

definition severity_rank :: "string \<Rightarrow> nat" where
  "severity_rank s =
     (if s = ''critical'' then 4 else if s = ''high'' then 3 else if s = ''medium'' then 2
      else if s = ''low'' then 1 else 0)"

definition line_less :: "int option \<Rightarrow> int option \<Rightarrow> bool" where
  "line_less a b = (case b of None \<Rightarrow> False | Some n \<Rightarrow> (case a of None \<Rightarrow> True | Some m \<Rightarrow> m < n))"

definition spec_report_order :: "issue \<Rightarrow> issue \<Rightarrow> bool" where
  "spec_report_order a b =
     (str_less (file_path a) (file_path b)
      \<or> (file_path a = file_path b
          \<and> (line_less (line a) (line b)
              \<or> (line a = line b
                  \<and> severity_rank (get_severity b) \<le> severity_rank (get_severity a)))))"

text \<open>The text of a category's section when no issue lacks its severity.\<close>

definition section_text :: "issue list \<Rightarrow> string" where
  "section_text xs =
     (if xs = [] then ''No issues found.\<newline>\<newline>''
      else concat (map (\<lambda>i. issue_text (get_severity i) i) xs))"

text \<open>A batch whose quality reviewer reports a finding in \<open>b.py\<close> and then one in
  \<open>a.py\<close>.\<close>

definition unsorted_batch :: "review_results" where
  "unsorted_batch =
     \<lparr>style = mk_results [], security = mk_results [],
      quality = mk_results [sample_issue ''b.py'' (Some 1) (Some ''low''),
                            sample_issue ''a.py'' (Some 1) (Some ''low'')],
      summary = \<lparr>total_issues = 2,
                 issues_by_severity = [(''critical'', 0), (''high'', 0), (''medium'', 0),
                                       (''low'', 2), (''info'', 0)],
                 score = 98, verdict = ''Excellent code quality. Approved!''\<rparr>\<rparr>"

section \<open>Strings: \<open>splitlines\<close>, \<open>strip\<close>, \<open>join\<close>, \<open>count\<close>\<close>

text \<open>
  \<open>str.isspace\<close> and the line boundaries of \<open>str.splitlines\<close>, for the code points
  below 256. \<open>splitlines\<close> drops the line ends, takes \<open>\r\n\<close> as one, and yields text
  after the last line end as a last line when it is not empty.
\<close>

definition is_space :: "char \<Rightarrow> bool" where
  "is_space c = (c \<in> set [CHR 0x09, CHR 0x0A, CHR 0x0B, CHR 0x0C, CHR 0x0D, CHR 0x1C, CHR 0x1D,
                           CHR 0x1E, CHR 0x1F, CHR 0x20, CHR 0x85, CHR 0xA0])"

definition is_linebreak :: "char \<Rightarrow> bool" where
  "is_linebreak c = (c \<in> set [CHR 0x0A, CHR 0x0B, CHR 0x0C, CHR 0x0D, CHR 0x1C, CHR 0x1D,
                               CHR 0x1E, CHR 0x85])"

definition strip :: "string \<Rightarrow> string" where
  "strip s = rev (dropWhile is_space (rev (dropWhile is_space s)))"

fun splitlines_from :: "string \<Rightarrow> string \<Rightarrow> string list" where
  "splitlines_from acc [] = (if acc = [] then [] else [acc])"
| "splitlines_from acc (c # cs) =
     (if c = CHR 0x0D then
        (case cs of
           [] \<Rightarrow> [acc]
         | d # ds \<Rightarrow> if d = CHR 0x0A then acc # splitlines_from [] ds
                    else acc # splitlines_from [] cs)
      else if is_linebreak c then acc # splitlines_from [] cs
      else splitlines_from (acc @ [c]) cs)"

definition splitlines :: "string \<Rightarrow> string list" where
  "splitlines content = splitlines_from [] content"

fun join :: "string \<Rightarrow> string list \<Rightarrow> string" where
  "join sep [] = []"
| "join sep [x] = x"
| "join sep (x # y # ys) = x @ sep @ join sep (y # ys)"

definition count_char :: "char \<Rightarrow> string \<Rightarrow> nat" where
  "count_char c s = length (filter (\<lambda>d. d = c) s)"

section \<open>Duplication detection: \<open>QualityReviewer._check_duplication\<close>\<close>

definition block_size :: nat where
  "block_size = 5"

text \<open>\<open>'\n'.join(lines[i:i+block_size])\<close>\<close>

definition window :: "string list \<Rightarrow> nat \<Rightarrow> string" where
  "window lines i = join [CHR 0x0A] (take block_size (drop i lines))"

text \<open>\<open>block.strip() == '' or block.count('#') > block_size / 2\<close>: the count is an
  integer, so it exceeds the quotient 2.5 exactly when its double exceeds \<open>block_size\<close>.\<close>

definition skipped :: "string \<Rightarrow> bool" where
  "skipped block = (strip block = [] \<or> block_size < 2 * count_char (CHR ''#'') block)"

text \<open>\<open>if block in blocks: blocks[block].append(n) else: blocks[block] = [n]\<close>, on the
  dictionary in insertion order.\<close>

fun dict_append :: "('k \<times> 'v list) list \<Rightarrow> 'k \<Rightarrow> 'v \<Rightarrow> ('k \<times> 'v list) list" where
  "dict_append [] k v = [(k, [v])]"
| "dict_append ((k', vs) # rest) k v =
     (if k' = k then (k', vs @ [v]) # rest else (k', vs) # dict_append rest k v)"

text \<open>
  The number of window positions, \<open>len(lines) - block_size + 1\<close> on Python's integers:
  \<open>range\<close> of it is empty when the file has fewer lines than a block.
\<close>

definition window_count :: "string list \<Rightarrow> nat" where
  "window_count lines = nat (int (length lines) - int block_size + 1)"

text \<open>
  One round of the loop over the window positions, and the loop. The loop runs only in a
  file of at least ten lines: \<open>check_duplication\<close> below returns before it otherwise.
\<close>

definition dup_step :: "string list \<Rightarrow> nat \<Rightarrow> (string \<times> nat list) list \<Rightarrow> (string \<times> nat list) list" where
  "dup_step lines i blocks =
     (let block = window lines i in
      if skipped block then blocks else dict_append blocks block (i + 1))"

definition duplication_blocks :: "string list \<Rightarrow> (string \<times> nat list) list" where
  "duplication_blocks lines = fold (dup_step lines) [0..<window_count lines] []"

text \<open>The report loop: one issue for each entry with more than one line number.\<close>

fun duplication_issues :: "string \<Rightarrow> (string \<times> nat list) list \<Rightarrow> issue list" where
  "duplication_issues repo_path [] = []"
| "duplication_issues repo_path ((block, []) # rest) = duplication_issues repo_path rest"
| "duplication_issues repo_path ((block, [n]) # rest) = duplication_issues repo_path rest"
| "duplication_issues repo_path ((block, n # m # ns) # rest) =
     \<lparr>file_path = repo_path, line = Some (int n),
      message = ''Duplicated code block found at lines ''
                @ join '', '' (map (\<lambda>k. str_int (int k)) (n # m # ns)),
      severity = Some ''medium'', issue_type = ''quality'', code = None,
      suggestion = Some ''Extract duplicated code into a reusable function''\<rparr>
     # duplication_issues repo_path rest"

definition check_duplication :: "string \<Rightarrow> string \<Rightarrow> issue list" where
  "check_duplication content repo_path =
     (let lines = splitlines content in
      if length lines < 10 then []
      else duplication_issues repo_path (duplication_blocks lines))"

text \<open>
  The skip rule in the specification's words: a window is skipped when it is blank or more
  than half of its lines are pure comments, a pure comment being a line whose first
  character after leading white space opens a comment (\<open>#\<close> or \<open>//\<close>).
\<close>

definition pure_comment :: "string \<Rightarrow> bool" where
  "pure_comment l = (take 1 (strip l) = ''#'' \<or> take 2 (strip l) = ''//'')"

definition spec_skipped :: "string list \<Rightarrow> bool" where
  "spec_skipped ls =
     (list_all (\<lambda>l. strip l = []) ls \<or> length ls < 2 * length (filter pure_comment ls))"

text \<open>Files for the concrete runs: nine numbered lines, a block of five lines, thirty-five
  numbered lines and the block again, so that the block is at lines 10 to 14 and 50 to 54.\<close>

definition numbered :: "nat \<Rightarrow> nat \<Rightarrow> string list" where
  "numbered a b = map (\<lambda>n. ''v'' @ str_nat n) [a..<b]"

definition file_with_block :: "string list \<Rightarrow> string" where
  "file_with_block blk =
     concat (map (\<lambda>l. l @ [CHR 0x0A]) (numbered 1 10 @ blk @ numbered 15 50 @ blk))"

definition code_block :: "string list" where
  "code_block = [''a = f()'', ''b = g(a)'', ''c = h(b)'', ''d = k(c)'', ''return d'']"

definition hash_block :: "string list" where
  "hash_block = [''a = f()  # 1'', ''b = g(a)  # 2'', ''c = h(b)  # 3'', ''d = k(c)'', ''return d'']"

text \<open>The start lines, counted from 1, of the windows of a file whose text is \<open>b\<close>.\<close>

definition positions :: "string list \<Rightarrow> string \<Rightarrow> nat list" where
  "positions lines b =
     map Suc (filter (\<lambda>i. window lines i = b) [0..<window_count lines])"

section \<open>Regular expressions\<close>

text \<open>
  The patterns of the reviewers, as syntax trees, and the backtracking matcher of Python's
  \<open>re\<close> for them. \<open>In\<close> is a character set \<open>[...]\<close>, with \<open>\s\<close> and \<open>\w\<close> as
  possible members; \<open>Group n\<close> is the \<open>n\<close>-th capturing group; a group \<open>(?:...)\<close> that
  does not capture is left out of the tree; \<open>x+\<close> is \<open>plus x\<close> and \<open>x?\<close> is
  \<open>opt x\<close>. \<open>\w\<close> is an alphanumeric character or the underscore, \<open>\s\<close> is white space
  (both for the code points below 256), \<open>.\<close> is any character but the newline. Under the
  flag \<open>(?i)\<close> an ASCII letter of the pattern matches in either case.
\<close>

datatype cset = Ch char | Sp | Wd

datatype regex =
    Lit char | AnyChar | In "cset list"
  | Seq regex regex | Alt regex regex | Star regex | Group nat regex
  | Bol | Eol | WordB | Eps

definition plus :: "regex \<Rightarrow> regex" where
  "plus r = Seq r (Star r)"

definition opt :: "regex \<Rightarrow> regex" where
  "opt r = Alt r Eps"

fun seq :: "regex list \<Rightarrow> regex" where
  "seq [] = Eps"
| "seq [r] = r"
| "seq (r # rs) = Seq r (seq rs)"

fun alt :: "regex list \<Rightarrow> regex" where
  "alt [] = In []"
| "alt [r] = r"
| "alt (r # rs) = Alt r (alt rs)"

definition lit :: "string \<Rightarrow> regex" where
  "lit s = seq (map Lit s)"

definition is_word :: "char \<Rightarrow> bool" where
  "is_word c =
     (let n = (of_char c :: int) in
      (48 \<le> n \<and> n \<le> 57) \<or> (65 \<le> n \<and> n \<le> 90) \<or> n = 95 \<or> (97 \<le> n \<and> n \<le> 122)
      \<or> n \<in> set [170, 178, 179, 181, 185, 186, 188, 189, 190]
      \<or> (192 \<le> n \<and> n \<noteq> 215 \<and> n \<noteq> 247))"

definition lower_char :: "char \<Rightarrow> char" where
  "lower_char c = (let n = (of_char c :: int) in if 65 \<le> n \<and> n \<le> 90 then char_of (n + 32) else c)"

definition char_eq :: "bool \<Rightarrow> char \<Rightarrow> char \<Rightarrow> bool" where
  "char_eq ic a c = (if ic then lower_char a = lower_char c else a = c)"

fun cset_has :: "bool \<Rightarrow> cset \<Rightarrow> char \<Rightarrow> bool" where
  "cset_has ic (Ch a) c = char_eq ic a c"
| "cset_has ic Sp c = is_space c"
| "cset_has ic Wd c = is_word c"

text \<open>
  A state of the matcher: the text before the position (last character first), the text
  from the position on, and the groups captured so far (the latest first).
\<close>

datatype mstate = MState (m_pre: string) (m_rest: string) (m_caps: "(nat \<times> string) list")

definition step_char :: "(char \<Rightarrow> bool) \<Rightarrow> mstate \<Rightarrow> mstate list" where
  "step_char ok s =
     (case m_rest s of
        [] \<Rightarrow> []
      | c # cs \<Rightarrow> if ok c then [MState (c # m_pre s) cs (m_caps s)] else [])"

text \<open>
  \<open>rmatch ic r s\<close> lists the states in which a match of \<open>r\<close> from \<open>s\<close> can end, in
  the order in which backtracking tries them: the left branch of an alternative first, one
  more round of a star first. A round of a star that consumes nothing ends the star.
\<close>

function rmatch :: "bool \<Rightarrow> regex \<Rightarrow> mstate \<Rightarrow> mstate list" where
  "rmatch ic (Lit a) s = step_char (char_eq ic a) s"
| "rmatch ic AnyChar s = step_char (\<lambda>c. c \<noteq> CHR 0x0A) s"
| "rmatch ic (In ks) s = step_char (\<lambda>c. list_ex (\<lambda>k. cset_has ic k c) ks) s"
| "rmatch ic (Seq a b) s = concat (map (rmatch ic b) (rmatch ic a s))"
| "rmatch ic (Alt a b) s = rmatch ic a s @ rmatch ic b s"
| "rmatch ic (Star a) s =
     concat (map (\<lambda>t. if length (m_rest t) < length (m_rest s) then rmatch ic (Star a) t else [])
                 (rmatch ic a s)) @ [s]"
| "rmatch ic (Group n a) s =
     map (\<lambda>t. MState (m_pre t) (m_rest t)
                 ((n, take (length (m_rest s) - length (m_rest t)) (m_rest s)) # m_caps t))
         (rmatch ic a s)"
| "rmatch ic Bol s = (if m_pre s = [] then [s] else [])"
| "rmatch ic Eol s = (if m_rest s = [] \<or> m_rest s = [CHR 0x0A] then [s] else [])"
| "rmatch ic WordB s =
     (if (case m_pre s of [] \<Rightarrow> False | c # _ \<Rightarrow> is_word c)
         \<noteq> (case m_rest s of [] \<Rightarrow> False | c # _ \<Rightarrow> is_word c)
      then [s] else [])"
| "rmatch ic Eps s = [s]"
  by pat_completeness auto
termination
  by (relation "measures [\<lambda>(ic, r, s). size r, \<lambda>(ic, r, s). length (m_rest s)]") auto

text \<open>\<open>re.match\<close> tries the pattern at the start of the line, \<open>re.search\<close> at every
  position from the left; both return the first match found.\<close>

definition re_match :: "bool \<Rightarrow> regex \<Rightarrow> string \<Rightarrow> mstate option" where
  "re_match ic r l = (case rmatch ic r (MState [] l []) of [] \<Rightarrow> None | m # _ \<Rightarrow> Some m)"

fun search_from :: "bool \<Rightarrow> regex \<Rightarrow> string \<Rightarrow> string \<Rightarrow> mstate option" where
  "search_from ic r pre [] =
     (case rmatch ic r (MState pre [] []) of [] \<Rightarrow> None | m # _ \<Rightarrow> Some m)"
| "search_from ic r pre (c # cs) =
     (case rmatch ic r (MState pre (c # cs) []) of
        [] \<Rightarrow> search_from ic r (c # pre) cs
      | m # _ \<Rightarrow> Some m)"

definition re_search :: "bool \<Rightarrow> regex \<Rightarrow> string \<Rightarrow> mstate option" where
  "re_search ic r l = search_from ic r [] l"

text \<open>\<open>match.group(n)\<close>\<close>

definition group :: "mstate \<Rightarrow> nat \<Rightarrow> string option" where
  "group m n = map_of (m_caps m) n"

section \<open>Function length and complexity: \<open>QualityReviewer._check_functions\<close>\<close>

text \<open>A word between word boundaries, \<open>\bword\b\<close>.\<close>

definition kw :: "string \<Rightarrow> regex" where
  "kw s = seq [WordB, lit s, WordB]"

text \<open>
  The twelve patterns of \<open>_estimate_complexity\<close>, in its order:
  \<open>\bif\b  \belse\b  \bfor\b  \bwhile\b  \bswitch\b  \bcase\b  \bcatch\b  \b\?\b  \band\b
  \bor\b  \&\&  \|\|\<close>.
\<close>

definition control_flow_patterns :: "regex list" where
  "control_flow_patterns =
     [kw ''if'', kw ''else'', kw ''for'', kw ''while'', kw ''switch'', kw ''case'', kw ''catch'',
      seq [WordB, Lit (CHR ''?''), WordB], kw ''and'', kw ''or'', lit ''&&'', lit ''||'']"

text \<open>The two loops of \<open>_estimate_complexity\<close>: for each line, for each pattern,
  \<open>if re.search(pattern, line): complexity += 1\<close>.\<close>

definition estimate_complexity :: "string list \<Rightarrow> int" where
  "estimate_complexity lines =
     fold (\<lambda>l c. fold (\<lambda>p c. if re_search False p l \<noteq> None then c + 1 else c)
                         control_flow_patterns c)
          lines 1"

text \<open>
  The patterns of \<open>_get_function_patterns\<close>, each dictionary in its order of insertion.
  \<open>ident\<close> is \<open>[\w_]\<close>.
\<close>

definition sp :: regex where
  "sp = In [Sp]"

definition ident :: regex where
  "ident = In [Wd, Ch (CHR ''_'')]"

text \<open>\<open>^\s*\}\<close>\<close>

definition brace_end :: regex where
  "brace_end = seq [Bol, Star sp, Lit (CHR ''}'')]"

text \<open>
  \<open>.py\<close>: function and method \<open>^\s*def\s+([\w_]+)\s*\(\<close>, class
  \<open>^\s*class\s+([\w_]+)\<close>, end \<open>^\s*$\<close>.
\<close>

definition py_patterns :: "(string \<times> regex) list" where
  "py_patterns =
     [(''function'', seq [Bol, Star sp, lit ''def'', plus sp, Group 1 (plus ident), Star sp,
                          Lit (CHR ''('')]),
      (''class'', seq [Bol, Star sp, lit ''class'', plus sp, Group 1 (plus ident)]),
      (''method'', seq [Bol, Star sp, lit ''def'', plus sp, Group 1 (plus ident), Star sp,
                        Lit (CHR ''('')]),
      (''end'', seq [Bol, Star sp, Eol])]"

text \<open>
  \<open>.js\<close>: function \<open>^\s*function\s+([\w_]+)\s*\(\<close>, method
  \<open>^\s*([\w_]+)\s*\(.*\)\s*\{\<close>, arrow
  \<open>^\s*(?:const|let|var)\s+([\w_]+)\s*=\s*\(.*\)\s*=>\<close>, end \<open>^\s*\}\<close>.
\<close>

definition js_patterns :: "(string \<times> regex) list" where
  "js_patterns =
     [(''function'', seq [Bol, Star sp, lit ''function'', plus sp, Group 1 (plus ident), Star sp,
                          Lit (CHR ''('')]),
      (''method'', seq [Bol, Star sp, Group 1 (plus ident), Star sp, Lit (CHR ''(''),
                        Star AnyChar, Lit (CHR '')''), Star sp, Lit (CHR ''{'')]),
      (''arrow'', seq [Bol, Star sp, alt [lit ''const'', lit ''let'', lit ''var''], plus sp,
                       Group 1 (plus ident), Star sp, Lit (CHR ''=''), Star sp, Lit (CHR ''(''),
                       Star AnyChar, Lit (CHR '')''), Star sp, lit ''=>'']),
      (''end'', brace_end)]"

text \<open>
  \<open>.java\<close>: method
  \<open>^\s*(?:public|private|protected|static|\s)+[\w<>\[\]]+\s+([\w_]+)\s*\(\<close> (the
  source escapes the two angle brackets, which changes nothing), end \<open>^\s*\}\<close>.
\<close>

definition java_patterns :: "(string \<times> regex) list" where
  "java_patterns =
     [(''method'', seq [Bol, Star sp,
                        plus (alt [lit ''public'', lit ''private'', lit ''protected'', lit ''static'',
                                   In [Sp]]),
                        plus (In [Wd, Ch (CHR ''<''), Ch (CHR ''>''), Ch (CHR ''[''), Ch (CHR '']'')]),
                        plus sp, Group 1 (plus ident), Star sp, Lit (CHR ''('')]),
      (''end'', brace_end)]"

text \<open>
  \<open>.go\<close>: function \<open>^\s*func\s+([\w_]+)\s*\(\<close>, method
  \<open>^\s*func\s+\(.*\)\s+([\w_]+)\s*\(\<close>, end \<open>^\s*\}\<close>.
\<close>

definition go_patterns :: "(string \<times> regex) list" where
  "go_patterns =
     [(''function'', seq [Bol, Star sp, lit ''func'', plus sp, Group 1 (plus ident), Star sp,
                          Lit (CHR ''('')]),
      (''method'', seq [Bol, Star sp, lit ''func'', plus sp, Lit (CHR ''(''), Star AnyChar,
                        Lit (CHR '')''), plus sp, Group 1 (plus ident), Star sp, Lit (CHR ''('')]),
      (''end'', brace_end)]"

text \<open>\<open>patterns.get(file_ext, patterns['.js'])\<close>\<close>

definition get_function_patterns :: "string \<Rightarrow> (string \<times> regex) list" where
  "get_function_patterns file_ext =
     dict_get_default
       [(''.py'', py_patterns), (''.js'', js_patterns), (''.java'', java_patterns),
        (''.go'', go_patterns)]
       file_ext js_patterns"

text \<open>
  A function that \<open>_find_functions\<close> has found. While it is open only its name, type and
  start line are known. The name is \<open>match.group(1)\<close>.
\<close>

record func =
  f_name :: "string option"
  f_type :: string
  start_line :: nat
  end_line :: nat
  f_length :: nat

record scan =
  funcs :: "func list"
  current_function :: "(string option \<times> string \<times> nat) option"
  brace_count :: int

text \<open>The loop over \<open>patterns.items()\<close> that looks for the start of a function: the
  first pattern other than \<open>end\<close> that matches at the start of the line.\<close>

fun find_start :: "(string \<times> regex) list \<Rightarrow> string \<Rightarrow> (string option \<times> string) option" where
  "find_start [] l = None"
| "find_start ((pattern_type, pat) # rest) l =
     (if pattern_type = ''end'' then find_start rest l
      else (case re_match False pat l of
              None \<Rightarrow> find_start rest l
            | Some m \<Rightarrow> Some (group m 1, pattern_type)))"

definition close_function :: "(string option \<times> string \<times> nat) \<Rightarrow> nat \<Rightarrow> func" where
  "close_function cur line_num =
     (case cur of (nm, ty, start) \<Rightarrow>
        \<lparr>f_name = nm, f_type = ty, start_line = start, end_line = line_num,
         f_length = line_num - start + 1\<rparr>)"

text \<open>One round of the loop over the lines, \<open>line_num\<close> counting from 1. The end pattern
  is \<open>patterns.get('end', r'^$')\<close>.\<close>

definition scan_line :: "(string \<times> regex) list \<Rightarrow> (nat \<times> string) \<Rightarrow> scan \<Rightarrow> scan" where
  "scan_line patterns nl st =
     (case nl of (line_num, l) \<Rightarrow>
      (case current_function st of
         Some cur \<Rightarrow>
           (let bc = brace_count st + int (count_char (CHR ''{'') l) - int (count_char (CHR ''}'') l) in
            if (re_match False (dict_get_default patterns ''end'' (seq [Bol, Eol])) l \<noteq> None \<and> bc \<le> 0)
               \<or> (bc \<le> 0 \<and> strip l = ''}'')
            then \<lparr>funcs = funcs st @ [close_function cur line_num],
                  current_function = None, brace_count = 0\<rparr>
            else st\<lparr>brace_count := bc\<rparr>)
       | None \<Rightarrow>
           (case find_start patterns l of
              None \<Rightarrow> st
            | Some (nm, ty) \<Rightarrow>
                st\<lparr>current_function := Some (nm, ty, line_num),
                   brace_count := brace_count st + int (count_char (CHR ''{'') l)\<rparr>)))"

definition find_functions :: "string list \<Rightarrow> (string \<times> regex) list \<Rightarrow> func list" where
  "find_functions lines patterns =
     (let st = fold (scan_line patterns) (zip [1..<Suc (length lines)] lines)
                    \<lparr>funcs = [], current_function = None, brace_count = 0\<rparr>
      in case current_function st of
           None \<Rightarrow> funcs st
         | Some cur \<Rightarrow> funcs st @ [close_function cur (length lines)])"

text \<open>The name as an f-string prints it.\<close>

definition name_text :: "string option \<Rightarrow> string" where
  "name_text nm = (case nm of None \<Rightarrow> ''None'' | Some s \<Rightarrow> s)"

definition length_issue :: "thresholds \<Rightarrow> string \<Rightarrow> func \<Rightarrow> issue" where
  "length_issue th repo_path f =
     \<lparr>file_path = repo_path, line = Some (int (start_line f)),
      message = ''Function '' @ [CHR 0x27] @ name_text (f_name f) @ [CHR 0x27] @ '' is too long (''
                @ str_int (int (f_length f)) @ '' lines, threshold: ''
                @ str_int (function_length th) @ '')'',
      severity = Some ''medium'', issue_type = ''quality'', code = None,
      suggestion = Some ''Break down the function into smaller, more focused functions''\<rparr>"

definition complexity_issue :: "thresholds \<Rightarrow> string \<Rightarrow> func \<Rightarrow> int \<Rightarrow> issue" where
  "complexity_issue th repo_path f c =
     \<lparr>file_path = repo_path, line = Some (int (start_line f)),
      message = ''Function '' @ [CHR 0x27] @ name_text (f_name f) @ [CHR 0x27]
                @ '' is too complex (estimated complexity: '' @ str_int c @ '', threshold: ''
                @ str_int (complexity th) @ '')'',
      severity = Some ''medium'', issue_type = ''quality'', code = None,
      suggestion = Some ''Reduce complexity by extracting logic into helper functions''\<rparr>"

text \<open>The slice \<open>lines[func['start_line']-1:func['end_line']]\<close>.\<close>

definition span_lines :: "string list \<Rightarrow> func \<Rightarrow> string list" where
  "span_lines lines f = take (end_line f - (start_line f - 1)) (drop (start_line f - 1) lines)"

text \<open>What one round of the loop over the functions appends.\<close>

definition function_issues :: "thresholds \<Rightarrow> string list \<Rightarrow> string \<Rightarrow> func \<Rightarrow> issue list" where
  "function_issues th lines repo_path f =
     (if int (f_length f) > function_length th then [length_issue th repo_path f] else [])
     @ (let c = estimate_complexity (span_lines lines f) in
        if c > complexity th then [complexity_issue th repo_path f c] else [])"

definition check_functions :: "thresholds \<Rightarrow> string \<Rightarrow> string \<Rightarrow> string \<Rightarrow> issue list" where
  "check_functions th content repo_path file_ext =
     (let lines = splitlines content;
          function_patterns = get_function_patterns file_ext;
          fs = find_functions lines function_patterns
      in concat (map (function_issues th lines repo_path) fs))"

text \<open>
  The number of pairs of a line and a control-flow pattern such that the pattern is found in
  the line; and, in the specification's words, the number of occurrences of the control-flow
  keywords in the lines, an occurrence being a match as \<open>re.findall\<close> counts them, from the
  left and without overlap.
\<close>

definition pattern_hits :: "string list \<Rightarrow> nat" where
  "pattern_hits lines =
     length (concat (map (\<lambda>l. filter (\<lambda>p. re_search False p l \<noteq> None) control_flow_patterns)
                         lines))"

fun count_from :: "regex \<Rightarrow> string \<Rightarrow> string \<Rightarrow> nat" where
  "count_from r pre [] = (case rmatch False r (MState pre [] []) of [] \<Rightarrow> 0 | m # _ \<Rightarrow> 1)"
| "count_from r pre (c # cs) =
     (case rmatch False r (MState pre (c # cs) []) of
        [] \<Rightarrow> count_from r (c # pre) cs
      | m # _ \<Rightarrow>
          if length (m_rest m) < length (c # cs) \<and> m_rest m \<noteq> cs
          then 1 + count_from r (rev (take (length cs - length (m_rest m)) cs) @ c # pre)
                              (drop (length cs - length (m_rest m)) cs)
          else 1 + count_from r (c # pre) cs)"

definition spec_occurrences :: "string list \<Rightarrow> nat" where
  "spec_occurrences lines =
     sum_list (map (\<lambda>l. sum_list (map (\<lambda>p. count_from p [] l) control_flow_patterns)) lines)"

text \<open>Files for the concrete runs: a Python function of 55 lines of which twelve hold an
  \<open>if\<close>, and a JavaScript function of one line with two.\<close>

definition long_function :: "string list" where
  "long_function = ''def f(x):'' # replicate 12 ''  if x: g()'' @ replicate 42 ''  h()''"

definition nested_ifs :: "string list" where
  "nested_ifs = [''function f() { if (a) { if (b) { c(); } } }'']"

definition file_of :: "string list \<Rightarrow> string" where
  "file_of ls = concat (map (\<lambda>l. l @ [CHR 0x0A]) ls)"

section \<open>Security patterns: \<open>SecurityReviewer\<close>\<close>

text \<open>
  The six patterns of \<open>security_patterns\<close>, all under the flag \<open>(?i)\<close>:
  \<^item> \<open>hardcoded_secrets\<close>:
    \<open>(password|secret|key|token|credential)s?["\s]*[:=]["\s]*[\'"](\w+)[\'"]\<close>
  \<^item> \<open>sql_injection\<close>: \<open>execute\s*\(.*\+\s*.*\)|.*\.raw\(.*\+\s*.*\)\<close>
  \<^item> \<open>command_injection\<close>:
    \<open>(os\.system|subprocess\.call|exec|eval)\s*\(.*\+\s*.*\)\<close>
  \<^item> \<open>xss\<close>: \<open>innerHTML|document\.write\s*\(.*\+\s*.*\)\<close>
  \<^item> \<open>insecure_random\<close>: \<open>Math\.random\(\)|random\.random\(\)\<close>
  \<^item> \<open>debug_code\<close>: \<open>(console\.log|print|debug|todo|fixme)\<close>

  \<open>CHR 0x22\<close> is the double quote and \<open>CHR 0x27\<close> the single quote.
\<close>

definition hardcoded_secrets :: regex where
  "hardcoded_secrets =
     seq [Group 1 (alt [lit ''password'', lit ''secret'', lit ''key'', lit ''token'',
                        lit ''credential'']),
          opt (Lit (CHR ''s'')),
          Star (In [Ch (CHR 0x22), Sp]),
          In [Ch (CHR '':''), Ch (CHR ''='')],
          Star (In [Ch (CHR 0x22), Sp]),
          In [Ch (CHR 0x27), Ch (CHR 0x22)],
          Group 2 (plus (In [Wd])),
          In [Ch (CHR 0x27), Ch (CHR 0x22)]]"

text \<open>\<open>\s*\(.*\+\s*.*\)\<close>, the tail that three of the patterns share.\<close>

definition concat_call :: "regex list" where
  "concat_call =
     [Star sp, Lit (CHR ''(''), Star AnyChar, Lit (CHR ''+''), Star sp, Star AnyChar,
      Lit (CHR '')'')]"

definition sql_injection :: regex where
  "sql_injection =
     alt [seq (lit ''execute'' # concat_call),
          seq [Star AnyChar, lit ''.raw('', Star AnyChar, Lit (CHR ''+''), Star sp, Star AnyChar,
               Lit (CHR '')'')]]"

definition command_injection :: regex where
  "command_injection =
     seq (Group 1 (alt [lit ''os.system'', lit ''subprocess.call'', lit ''exec'', lit ''eval''])
          # concat_call)"

definition xss :: regex where
  "xss = alt [lit ''innerHTML'', seq (lit ''document.write'' # concat_call)]"

definition insecure_random :: regex where
  "insecure_random = alt [lit ''Math.random()'', lit ''random.random()'']"

definition debug_code :: regex where
  "debug_code =
     Group 1 (alt [lit ''console.log'', lit ''print'', lit ''debug'', lit ''todo'', lit ''fixme''])"

text \<open>The dictionary \<open>security_patterns\<close>: for each check name its pattern, message and
  severity.\<close>

definition security_patterns :: "(string \<times> regex \<times> string \<times> string) list" where
  "security_patterns =
     [(''hardcoded_secrets'', hardcoded_secrets,
         ''Potential hardcoded secret or credential'', ''critical''),
      (''sql_injection'', sql_injection, ''Potential SQL injection vulnerability'', ''critical''),
      (''command_injection'', command_injection,
         ''Potential command injection vulnerability'', ''critical''),
      (''xss'', xss, ''Potential XSS vulnerability'', ''high''),
      (''insecure_random'', insecure_random,
         ''Use of insecure random number generator'', ''medium''),
      (''debug_code'', debug_code, ''Debug code or comment found'', ''low'')]"

definition get_suggestion :: "string \<Rightarrow> string" where
  "get_suggestion check_name =
     dict_get_default
       [(''hardcoded_secrets'', ''Store secrets in environment variables or a secure vault''),
        (''sql_injection'',
           ''Use parameterized queries or an ORM instead of string concatenation''),
        (''command_injection'',
           ''Use safe APIs or validate and sanitize user input before using it in commands''),
        (''xss'', ''Use safe APIs or sanitize user input before inserting it into HTML''),
        (''insecure_random'', ''Use a cryptographically secure random number generator''),
        (''debug_code'', ''Remove debug code before production deployment'')]
       check_name ''Review and fix the security issue''"

text \<open>
  The inner loop of \<open>_check_security_patterns\<close> for one check: an issue for each line, in
  order, on which \<open>re.findall(pattern, line)\<close> is not empty, that is, on which the pattern
  is found. Lines count from 1.
\<close>

definition pattern_issues ::
  "string \<Rightarrow> string list \<Rightarrow> (string \<times> regex \<times> string \<times> string) \<Rightarrow> issue list" where
  "pattern_issues repo_path lines rule =
     (case rule of (check_name, pat, msg, sev) \<Rightarrow>
        map (\<lambda>(i, l). \<lparr>file_path = repo_path, line = Some (int i + 1), message = msg,
                        severity = Some sev, issue_type = ''security'', code = Some check_name,
                        suggestion = Some (get_suggestion check_name)\<rparr>)
            (filter (\<lambda>(i, l). re_search True pat l \<noteq> None) (zip [0..<length lines] lines)))"

definition check_security_patterns :: "string \<Rightarrow> string \<Rightarrow> issue list" where
  "check_security_patterns content repo_path =
     (let lines = splitlines content in
      concat (map (pattern_issues repo_path lines) security_patterns))"

text \<open>Two lines that assign a string literal to a variable named \<open>password\<close>.\<close>

definition word_secret :: string where
  "word_secret = ''password = \"abc123\"''"

definition spaced_secret :: string where
  "spaced_secret = ''password = \"hunter 2\"''"

section \<open>Lemmas on the counting loops\<close>

lemma bind_err_simps [simp]:
  "bind_err (Inl e) f = Inl e" "bind_err (Inr x) f = f x"
  by (simp_all add: bind_err_def)

lemma map_of_the: "(k, v) \<in> set d \<Longrightarrow> map_of d k = Some (the (map_of d k))"
  by (cases "map_of d k") (force simp: map_of_eq_None_iff)+

lemma dict_incr_ok:
  "k \<in> fst ` set d \<Longrightarrow>
   \<exists>d'. dict_incr d k = Inr d' \<and> map fst d' = map fst d
      \<and> map_of d' = (map_of d)(k \<mapsto> the (map_of d k) + 1)
      \<and> sum_list (map snd d') = sum_list (map snd d) + 1"
proof (induction d)
  case Nil
  then show ?case by simp
next
  case (Cons p d)
  obtain k' v where p: "p = (k', v)" by (cases p)
  show ?case
  proof (cases "k' = k")
    case True
    then show ?thesis using p by auto
  next
    case False
    with Cons.prems p have "k \<in> fst ` set d" by auto
    from Cons.IH [OF this] obtain d' where
      d': "dict_incr d k = Inr d'" "map fst d' = map fst d"
          "map_of d' = (map_of d)(k \<mapsto> the (map_of d k) + 1)"
          "sum_list (map snd d') = sum_list (map snd d) + 1"
      by blast
    then show ?thesis using p False by (auto simp: fun_upd_twist)
  qed
qed

lemma dict_incr_fails: "k \<notin> fst ` set d \<Longrightarrow> dict_incr d k = Inl KeyError"
  by (induction d) (auto split: sum.splits)

lemma count_issues_ok:
  "list_all (\<lambda>i. get_severity i \<in> fst ` set d) xs \<Longrightarrow>
   \<exists>d'. count_issues d xs = Inr d' \<and> map fst d' = map fst d
      \<and> (\<forall>k \<in> fst ` set d. map_of d' k = Some (the (map_of d k) + count_severity k xs))
      \<and> sum_list (map snd d') = sum_list (map snd d) + int (length xs)"
proof (induction xs arbitrary: d)
  case Nil
  then show ?case by (auto simp: count_severity_def dest: map_of_the)
next
  case (Cons i xs)
  then have k: "get_severity i \<in> fst ` set d" by simp
  from dict_incr_ok [OF k] obtain d1 where
    d1: "dict_incr d (get_severity i) = Inr d1" "map fst d1 = map fst d"
        "map_of d1 = (map_of d)(get_severity i \<mapsto> the (map_of d (get_severity i)) + 1)"
        "sum_list (map snd d1) = sum_list (map snd d) + 1"
    by blast
  have keys: "fst ` set d1 = fst ` set d"
    using d1(2) by (metis list.set_map)
  with Cons.prems have "list_all (\<lambda>i. get_severity i \<in> fst ` set d1) xs" by simp
  from Cons.IH [OF this] obtain d' where
    d': "count_issues d1 xs = Inr d'" "map fst d' = map fst d1"
        "\<forall>k \<in> fst ` set d1. map_of d' k = Some (the (map_of d1 k) + count_severity k xs)"
        "sum_list (map snd d') = sum_list (map snd d1) + int (length xs)"
    by blast
  have "\<forall>k \<in> fst ` set d. map_of d' k = Some (the (map_of d k) + count_severity k (i # xs))"
    using d'(3) keys d1(3) by (auto simp: count_severity_def)
  then show ?case using d1 d' by auto
qed

lemma count_issues_fails:
  "\<not> list_all (\<lambda>i. get_severity i \<in> fst ` set d) xs \<Longrightarrow> count_issues d xs = Inl KeyError"
proof (induction xs arbitrary: d)
  case Nil
  then show ?case by simp
next
  case (Cons i xs)
  show ?case
  proof (cases "get_severity i \<in> fst ` set d")
    case False
    then show ?thesis by (simp add: dict_incr_fails)
  next
    case True
    from dict_incr_ok [OF True] obtain d1 where
      d1: "dict_incr d (get_severity i) = Inr d1" "map fst d1 = map fst d" by blast
    have "fst ` set d1 = fst ` set d" using d1(2) by (metis list.set_map)
    with Cons.prems True have "\<not> list_all (\<lambda>i. get_severity i \<in> fst ` set d1) xs" by simp
    from Cons.IH [OF this] show ?thesis using d1 by simp
  qed
qed

lemma count_issues_append:
  "count_issues d (xs @ ys) = bind_err (count_issues d xs) (\<lambda>d'. count_issues d' ys)"
  by (induction xs arbitrary: d) (auto split: sum.splits)

lemma dict_by_keys:
  "distinct (map fst d) \<Longrightarrow> d = map (\<lambda>k. (k, the (map_of d k))) (map fst d)"
proof -
  assume dist: "distinct (map fst d)"
  have "map (\<lambda>p. (fst p, the (map_of d (fst p)))) d = map (\<lambda>p. p) d"
  proof (rule map_cong [OF refl])
    fix p assume "p \<in> set d"
    then have "map_of d (fst p) = Some (snd p)" using dist by simp
    then show "(fst p, the (map_of d (fst p))) = p" by simp
  qed
  then show ?thesis by (simp add: comp_def)
qed

lemma bind_err_assoc:
  "bind_err (bind_err m f) g = bind_err m (\<lambda>x. bind_err (f x) g)"
  by (simp add: bind_err_def split: sum.splits)

lemma generate_summary_alt:
  "generate_summary a b c =
     bind_err (count_issues
         [(''critical'', 0), (''high'', 0), (''medium'', 0), (''low'', 0), (''info'', 0)]
         (get_issues a @ get_issues b @ get_issues c)) (\<lambda>d3.
       (let n_total = sum_list (map snd d3) in
        bind_err (compute_score d3 n_total) (\<lambda>sc.
          Inr \<lparr>total_issues = n_total, issues_by_severity = d3, score = sc,
               verdict = get_verdict sc\<rparr>)))"
  unfolding generate_summary_def count_issues_append bind_err_assoc ..

lemma count_severity_append:
  "count_severity k (xs @ ys) = count_severity k xs + count_severity k ys"
  by (simp add: count_severity_def)

lemma count_severity_bounds: "0 \<le> count_severity k xs" "count_severity k xs \<le> int (length xs)"
  by (simp_all add: count_severity_def)

lemma generate_summary_ok:
  assumes wf: "well_formed (get_issues a @ get_issues b @ get_issues c)"
  defines "xs \<equiv> get_issues a @ get_issues b @ get_issues c"
  shows "generate_summary a b c =
     Inr \<lparr>total_issues = int (length xs),
          issues_by_severity =
            [(''critical'', count_severity ''critical'' xs), (''high'', count_severity ''high'' xs),
             (''medium'', count_severity ''medium'' xs), (''low'', count_severity ''low'' xs),
             (''info'', count_severity ''info'' xs)],
          score = the_score xs, verdict = get_verdict (the_score xs)\<rparr>"
proof -
  let ?d0 = "[(''critical'', 0::int), (''high'', 0), (''medium'', 0), (''low'', 0), (''info'', 0)]"
  have keys0: "fst ` set ?d0 = set severities" by (simp add: severities_def)
  from wf have "list_all (\<lambda>i. get_severity i \<in> fst ` set ?d0) xs"
    unfolding well_formed_def xs_def keys0 .
  from count_issues_ok [OF this] obtain d' where
    d': "count_issues ?d0 xs = Inr d'" "map fst d' = map fst ?d0"
        "\<forall>k \<in> fst ` set ?d0. map_of d' k = Some (the (map_of ?d0 k) + count_severity k xs)"
        "sum_list (map snd d') = sum_list (map snd ?d0) + int (length xs)"
    by blast
  have m: "map_of d' ''critical'' = Some (count_severity ''critical'' xs)"
          "map_of d' ''high'' = Some (count_severity ''high'' xs)"
          "map_of d' ''medium'' = Some (count_severity ''medium'' xs)"
          "map_of d' ''low'' = Some (count_severity ''low'' xs)"
          "map_of d' ''info'' = Some (count_severity ''info'' xs)"
    using d'(3) by simp_all
  have "distinct (map fst d')" using d'(2) by simp
  from dict_by_keys [OF this] have d'_eq:
    "d' = [(''critical'', count_severity ''critical'' xs), (''high'', count_severity ''high'' xs),
           (''medium'', count_severity ''medium'' xs), (''low'', count_severity ''low'' xs),
           (''info'', count_severity ''info'' xs)]"
    using d'(2) m by simp
  have tot: "sum_list (map snd d') = int (length xs)" using d'(4) by simp
  have sc: "compute_score d' (int (length xs)) = Inr (the_score xs)"
  proof (cases "xs = []")
    case True
    then show ?thesis
      by (simp add: compute_score_def the_score_def clamp_def count_severity_def)
  next
    case False
    then have "int (length xs) > 0" by simp
    then show ?thesis
      by (simp add: compute_score_def dict_get_def m the_score_def clamp_def)
  qed
  have "generate_summary a b c =
      bind_err (count_issues ?d0 xs) (\<lambda>d3.
        (let n_total = sum_list (map snd d3) in
         bind_err (compute_score d3 n_total) (\<lambda>sc.
           Inr \<lparr>total_issues = n_total, issues_by_severity = d3, score = sc,
                verdict = get_verdict sc\<rparr>)))"
    unfolding xs_def by (rule generate_summary_alt)
  also have "\<dots> = Inr \<lparr>total_issues = int (length xs), issues_by_severity = d',
      score = the_score xs, verdict = get_verdict (the_score xs)\<rparr>"
    by (simp add: d'(1) tot sc)
  finally show ?thesis using d'_eq by simp
qed

lemma generate_summary_fails:
  assumes "\<not> well_formed (get_issues a @ get_issues b @ get_issues c)"
  shows "generate_summary a b c = Inl KeyError"
proof -
  let ?d0 = "[(''critical'', 0::int), (''high'', 0), (''medium'', 0), (''low'', 0), (''info'', 0)]"
  have keys0: "fst ` set ?d0 = set severities" by (simp add: severities_def)
  from assms have "\<not> list_all (\<lambda>i. get_severity i \<in> fst ` set ?d0)
      (get_issues a @ get_issues b @ get_issues c)"
    unfolding well_formed_def keys0 .
  from count_issues_fails [OF this] show ?thesis
    unfolding generate_summary_alt by simp
qed

lemma count_severity_mset:
  "mset xs = mset ys \<Longrightarrow> count_severity k xs = count_severity k ys"
proof -
  assume "mset xs = mset ys"
  then have "size (filter_mset (\<lambda>i. get_severity i = k) (mset xs))
           = size (filter_mset (\<lambda>i. get_severity i = k) (mset ys))" by simp
  then show ?thesis
    unfolding count_severity_def mset_filter [symmetric] size_mset by simp
qed

lemma count_severity_add:
  "mset ys = add_mset x (mset xs) \<Longrightarrow>
   count_severity k ys = count_severity k xs + (if get_severity x = k then 1 else 0)"
proof -
  assume "mset ys = add_mset x (mset xs)"
  then have "mset ys = mset (x # xs)" by simp
  from count_severity_mset [OF this] show ?thesis by (simp add: count_severity_def)
qed

lemma well_formed_add:
  "mset ys = add_mset x (mset xs) \<Longrightarrow>
   well_formed ys = (get_severity x \<in> set severities \<and> well_formed xs)"
proof -
  assume "mset ys = add_mset x (mset xs)"
  then have "set ys = insert x (set xs)" by (metis set_mset_add_mset_insert set_mset_mset)
  then show ?thesis by (auto simp: well_formed_def list_all_iff)
qed

lemma the_score_range: "0 \<le> the_score xs" "the_score xs \<le> 100"
  by (simp_all add: the_score_def clamp_def)

section \<open>The aggregate score and the verdict\<close>

text \<open>
  Claim C1. For every issue collection whose severities are among the five of the data
  model (a missing severity counting as info), \<open>_generate_summary\<close> returns a summary whose
  score is 100 minus 10 per critical, 5 per high, 2 per medium and 1 per low issue, clamped
  to 0..100. Issues of severity info do not affect it: the collection without them has the
  same score. A batch with exactly one critical, one high and one medium issue and no low
  one scores 83, with the verdict "Good code quality with minor issues.".
\<close>

theorem generate_summary_score:
  assumes "well_formed (get_issues a @ get_issues b @ get_issues c)"
  defines "xs \<equiv> get_issues a @ get_issues b @ get_issues c"
  shows "\<exists>s. generate_summary a b c = Inr s
      \<and> score s = clamp (100 - 10 * count_severity ''critical'' xs - 5 * count_severity ''high'' xs
                           - 2 * count_severity ''medium'' xs - 1 * count_severity ''low'' xs) 0 100
      \<and> (\<exists>s'. generate_summary
                 (mk_results (filter (\<lambda>i. get_severity i \<noteq> ''info'') (get_issues a)))
                 (mk_results (filter (\<lambda>i. get_severity i \<noteq> ''info'') (get_issues b)))
                 (mk_results (filter (\<lambda>i. get_severity i \<noteq> ''info'') (get_issues c))) = Inr s'
               \<and> score s' = score s)
      \<and> (count_severity ''critical'' xs = 1 \<and> count_severity ''high'' xs = 1
           \<and> count_severity ''medium'' xs = 1 \<and> count_severity ''low'' xs = 0
         \<longrightarrow> score s = 83 \<and> verdict s = ''Good code quality with minor issues.'')"
proof -
  let ?f = "filter (\<lambda>i. get_severity i \<noteq> ''info'')"
  let ?ys = "get_issues (mk_results (?f (get_issues a))) @ get_issues (mk_results (?f (get_issues b)))
             @ get_issues (mk_results (?f (get_issues c)))"
  have ys: "?ys = ?f xs" by (simp add: get_issues_def mk_results_def xs_def)
  have s: "generate_summary a b c =
     Inr \<lparr>total_issues = int (length xs),
          issues_by_severity =
            [(''critical'', count_severity ''critical'' xs), (''high'', count_severity ''high'' xs),
             (''medium'', count_severity ''medium'' xs), (''low'', count_severity ''low'' xs),
             (''info'', count_severity ''info'' xs)],
          score = the_score xs, verdict = get_verdict (the_score xs)\<rparr>"
    unfolding xs_def by (rule generate_summary_ok [OF assms(1)])
  have "well_formed (?f xs)"
    using assms(1) unfolding xs_def well_formed_def list_all_iff by auto
  then have "well_formed ?ys" unfolding ys .
  from generate_summary_ok [OF this]
  have s': "\<exists>s'. generate_summary (mk_results (?f (get_issues a))) (mk_results (?f (get_issues b)))
       (mk_results (?f (get_issues c))) = Inr s' \<and> score s' = the_score (?f xs)"
    unfolding ys by simp
  have cnt: "count_severity k (?f xs) = count_severity k xs" if "k \<noteq> ''info''" for k
  proof -
    have "filter (\<lambda>i. get_severity i = k) (?f xs) = filter (\<lambda>i. get_severity i = k) xs"
      using that by (auto intro: filter_cong)
    then show ?thesis by (simp add: count_severity_def)
  qed
  have same: "the_score (?f xs) = the_score xs"
    by (simp add: the_score_def cnt)
  have ex: "count_severity ''critical'' xs = 1 \<and> count_severity ''high'' xs = 1
           \<and> count_severity ''medium'' xs = 1 \<and> count_severity ''low'' xs = 0
         \<longrightarrow> the_score xs = 83 \<and> get_verdict (the_score xs) = ''Good code quality with minor issues.''"
    by (simp add: the_score_def clamp_def get_verdict_def)
  let ?s = "\<lparr>total_issues = int (length xs),
          issues_by_severity =
            [(''critical'', count_severity ''critical'' xs), (''high'', count_severity ''high'' xs),
             (''medium'', count_severity ''medium'' xs), (''low'', count_severity ''low'' xs),
             (''info'', count_severity ''info'' xs)],
          score = the_score xs, verdict = get_verdict (the_score xs)\<rparr>"
  have sc: "score ?s = the_score xs" and vd: "verdict ?s = get_verdict (the_score xs)"
    by simp_all
  have 1: "score ?s = clamp (100 - 10 * count_severity ''critical'' xs
      - 5 * count_severity ''high'' xs - 2 * count_severity ''medium'' xs
      - 1 * count_severity ''low'' xs) 0 100"
    by (simp add: the_score_def)
  have 2: "\<exists>s'. generate_summary (mk_results (?f (get_issues a))) (mk_results (?f (get_issues b)))
       (mk_results (?f (get_issues c))) = Inr s' \<and> score s' = score ?s"
    using s' unfolding sc same .
  have 3: "count_severity ''critical'' xs = 1 \<and> count_severity ''high'' xs = 1
           \<and> count_severity ''medium'' xs = 1 \<and> count_severity ''low'' xs = 0
         \<longrightarrow> score ?s = 83 \<and> verdict ?s = ''Good code quality with minor issues.''"
    using ex unfolding sc vd .
  from s 1 2 3 show ?thesis by blast
qed

theorem generate_summary_score_witness:
  "well_formed [sample_issue ''a.py'' None (Some ''high''), sample_issue ''a.py'' (Some 3) (Some ''critical''),
                sample_issue ''a.py'' (Some 7) (Some ''medium'')]
   \<and> (\<exists>s. generate_summary (mk_results [sample_issue ''a.py'' None (Some ''high'')])
              (mk_results [sample_issue ''a.py'' (Some 3) (Some ''critical'')])
              (mk_results [sample_issue ''a.py'' (Some 7) (Some ''medium'')]) = Inr s
         \<and> score s = 83 \<and> verdict s = ''Good code quality with minor issues.'')"
proof -
  let ?a = "mk_results [sample_issue ''a.py'' None (Some ''high'')]"
  let ?b = "mk_results [sample_issue ''a.py'' (Some 3) (Some ''critical'')]"
  let ?c = "mk_results [sample_issue ''a.py'' (Some 7) (Some ''medium'')]"
  have wf: "well_formed (get_issues ?a @ get_issues ?b @ get_issues ?c)"
    by (simp add: well_formed_def get_issues_def mk_results_def sample_issue_def
        get_severity_def severities_def)
  have cnt: "count_severity ''critical'' (get_issues ?a @ get_issues ?b @ get_issues ?c) = 1"
       "count_severity ''high'' (get_issues ?a @ get_issues ?b @ get_issues ?c) = 1"
       "count_severity ''medium'' (get_issues ?a @ get_issues ?b @ get_issues ?c) = 1"
       "count_severity ''low'' (get_issues ?a @ get_issues ?b @ get_issues ?c) = 0"
    by (simp_all add: count_severity_def get_issues_def mk_results_def sample_issue_def
        get_severity_def)
  from generate_summary_score [OF wf] cnt
  have "\<exists>s. generate_summary ?a ?b ?c = Inr s
         \<and> score s = 83 \<and> verdict s = ''Good code quality with minor issues.''"
    by auto
  moreover have "well_formed [sample_issue ''a.py'' None (Some ''high''),
      sample_issue ''a.py'' (Some 3) (Some ''critical''), sample_issue ''a.py'' (Some 7) (Some ''medium'')]"
    using wf by (simp add: get_issues_def mk_results_def)
  ultimately show ?thesis by simp
qed

text \<open>
  Claim C2. The verdict is determined by the threshold table: a score gets the first
  verdict exactly from 90 on, the second exactly in 80..89, the third exactly in 70..79, the
  fourth exactly in 50..69 and the last exactly below 50. The five strings are pairwise
  different, so every score (in particular every score of 0..100) has exactly one of them.
\<close>

theorem get_verdict_table:
  "(get_verdict s = ''Excellent code quality. Approved!'') = (90 \<le> s)
   \<and> (get_verdict s = ''Good code quality with minor issues.'') = (80 \<le> s \<and> s < 90)
   \<and> (get_verdict s = ''Acceptable code quality but needs improvement.'') = (70 \<le> s \<and> s < 80)
   \<and> (get_verdict s = ''Poor code quality. Significant improvements needed.'') = (50 \<le> s \<and> s < 70)
   \<and> (get_verdict s = ''Critical issues found. Must be fixed before merging.'') = (s < 50)
   \<and> distinct [''Excellent code quality. Approved!'', ''Good code quality with minor issues.'',
        ''Acceptable code quality but needs improvement.'',
        ''Poor code quality. Significant improvements needed.'',
        ''Critical issues found. Must be fixed before merging.'']
   \<and> (\<exists>!v. v \<in> set [''Excellent code quality. Approved!'', ''Good code quality with minor issues.'',
        ''Acceptable code quality but needs improvement.'',
        ''Poor code quality. Significant improvements needed.'',
        ''Critical issues found. Must be fixed before merging.''] \<and> get_verdict s = v)"
proof -
  let ?L = "[''Excellent code quality. Approved!'', ''Good code quality with minor issues.'',
        ''Acceptable code quality but needs improvement.'',
        ''Poor code quality. Significant improvements needed.'',
        ''Critical issues found. Must be fixed before merging.'']"
  have 1: "(get_verdict s = ''Excellent code quality. Approved!'') = (90 \<le> s)"
    by (simp add: get_verdict_def)
  have 2: "(get_verdict s = ''Good code quality with minor issues.'') = (80 \<le> s \<and> s < 90)"
    by (simp add: get_verdict_def)
  have 3: "(get_verdict s = ''Acceptable code quality but needs improvement.'')
      = (70 \<le> s \<and> s < 80)"
    by (simp add: get_verdict_def)
  have 4: "(get_verdict s = ''Poor code quality. Significant improvements needed.'')
      = (50 \<le> s \<and> s < 70)"
    by (simp add: get_verdict_def)
  have 5: "(get_verdict s = ''Critical issues found. Must be fixed before merging.'') = (s < 50)"
    by (simp add: get_verdict_def)
  have 6: "distinct ?L" by simp
  have "get_verdict s \<in> set ?L" by (simp add: get_verdict_def)
  then have 7: "\<exists>!v. v \<in> set ?L \<and> get_verdict s = v" by blast
  from 1 2 3 4 5 6 7 show ?thesis by blast
qed

theorem get_verdict_table_witness:
  "get_verdict 90 = ''Excellent code quality. Approved!''
   \<and> get_verdict 89 = ''Good code quality with minor issues.''
   \<and> get_verdict 70 = ''Acceptable code quality but needs improvement.''
   \<and> get_verdict 50 = ''Poor code quality. Significant improvements needed.''
   \<and> get_verdict 49 = ''Critical issues found. Must be fixed before merging.''"
  using get_verdict_table [of 90] get_verdict_table [of 89] get_verdict_table [of 70]
    get_verdict_table [of 50] get_verdict_table [of 49]
  by simp

text \<open>
  Claim C3. Adding one issue, of any of the five severities or with none, to a collection
  (in any of the three result lists, at any place) never raises the score, and the score of
  either collection lies in 0..100.
\<close>

theorem score_monotone:
  assumes "well_formed (get_issues a @ get_issues b @ get_issues c)"
      and "get_severity x \<in> set severities"
      and "mset (get_issues a' @ get_issues b' @ get_issues c')
           = add_mset x (mset (get_issues a @ get_issues b @ get_issues c))"
  shows "\<exists>s s'. generate_summary a b c = Inr s \<and> generate_summary a' b' c' = Inr s'
      \<and> score s' \<le> score s
      \<and> 0 \<le> score s \<and> score s \<le> 100 \<and> 0 \<le> score s' \<and> score s' \<le> 100"
proof -
  let ?xs = "get_issues a @ get_issues b @ get_issues c"
  let ?ys = "get_issues a' @ get_issues b' @ get_issues c'"
  have wf': "well_formed ?ys"
    using well_formed_add [OF assms(3)] assms(1,2) by simp
  have le: "the_score ?ys \<le> the_score ?xs"
    unfolding the_score_def count_severity_add [OF assms(3)] clamp_def by simp
  have "score \<lparr>total_issues = int (length ?ys),
          issues_by_severity =
            [(''critical'', count_severity ''critical'' ?ys), (''high'', count_severity ''high'' ?ys),
             (''medium'', count_severity ''medium'' ?ys), (''low'', count_severity ''low'' ?ys),
             (''info'', count_severity ''info'' ?ys)],
          score = the_score ?ys, verdict = get_verdict (the_score ?ys)\<rparr>
     \<le> score \<lparr>total_issues = int (length ?xs),
          issues_by_severity =
            [(''critical'', count_severity ''critical'' ?xs), (''high'', count_severity ''high'' ?xs),
             (''medium'', count_severity ''medium'' ?xs), (''low'', count_severity ''low'' ?xs),
             (''info'', count_severity ''info'' ?xs)],
          score = the_score ?xs, verdict = get_verdict (the_score ?xs)\<rparr>"
    using le by simp
  then show ?thesis
    using generate_summary_ok [OF assms(1)] generate_summary_ok [OF wf']
      the_score_range [of ?xs] the_score_range [of ?ys]
    by simp
qed

theorem score_monotone_witness:
  "\<exists>s s'. generate_summary (mk_results []) (mk_results [sample_issue ''a.py'' None (Some ''low'')])
             (mk_results []) = Inr s
        \<and> generate_summary (mk_results [sample_issue ''b.py'' (Some 2) (Some ''critical'')])
             (mk_results [sample_issue ''a.py'' None (Some ''low'')]) (mk_results []) = Inr s'
        \<and> score s' \<le> score s \<and> score s = 99 \<and> score s' = 89"
proof -
  let ?l = "sample_issue ''a.py'' None (Some ''low'')"
  let ?x = "sample_issue ''b.py'' (Some 2) (Some ''critical'')"
  have 1: "well_formed (get_issues (mk_results []) @ get_issues (mk_results [?l])
      @ get_issues (mk_results []))"
    by (simp add: well_formed_def get_issues_def mk_results_def sample_issue_def
        get_severity_def severities_def)
  have 2: "get_severity ?x \<in> set severities"
    by (simp add: sample_issue_def get_severity_def severities_def)
  have 3: "mset (get_issues (mk_results [?x]) @ get_issues (mk_results [?l])
        @ get_issues (mk_results []))
      = add_mset ?x (mset (get_issues (mk_results []) @ get_issues (mk_results [?l])
        @ get_issues (mk_results [])))"
    by (simp add: get_issues_def mk_results_def)
  from score_monotone [OF 1 2 3] obtain s s' where
    s: "generate_summary (mk_results []) (mk_results [?l]) (mk_results []) = Inr s"
       "generate_summary (mk_results [?x]) (mk_results [?l]) (mk_results []) = Inr s'"
       "score s' \<le> score s"
    by blast
  have "score s = 99"
    using s(1) by (auto simp: generate_summary_def get_issues_def mk_results_def sample_issue_def
        get_severity_def compute_score_def dict_get_def)
  moreover have "score s' = 89"
    using s(2) by (auto simp: generate_summary_def get_issues_def mk_results_def sample_issue_def
        get_severity_def compute_score_def dict_get_def)
  ultimately show ?thesis using s by blast
qed

text \<open>
  Claim C10. An issue that has no severity field is counted under info: with it, the total
  and the info count are one higher, every other count is the same, and the score and the
  verdict do not change. This holds for every collection handed to the aggregation whose
  other severities are among the five.
\<close>

theorem missing_severity_is_info:
  assumes "well_formed (get_issues a @ get_issues b @ get_issues c)"
      and "severity x = None"
      and "mset (get_issues a' @ get_issues b' @ get_issues c')
           = add_mset x (mset (get_issues a @ get_issues b @ get_issues c))"
  shows "\<exists>s s' n. generate_summary a b c = Inr s \<and> generate_summary a' b' c' = Inr s'
      \<and> total_issues s' = total_issues s + 1
      \<and> dict_get (issues_by_severity s) ''info'' = Inr n
      \<and> dict_get (issues_by_severity s') ''info'' = Inr (n + 1)
      \<and> (\<forall>k. k \<noteq> ''info'' \<longrightarrow>
            dict_get (issues_by_severity s') k = dict_get (issues_by_severity s) k)
      \<and> score s' = score s \<and> verdict s' = verdict s"
proof -
  let ?xs = "get_issues a @ get_issues b @ get_issues c"
  let ?ys = "get_issues a' @ get_issues b' @ get_issues c'"
  have sev: "get_severity x = ''info''" using assms(2) by (simp add: get_severity_def)
  then have wf': "well_formed ?ys"
    using well_formed_add [OF assms(3)] assms(1) by (simp add: severities_def)
  have len: "length ?ys = Suc (length ?xs)"
    using assms(3) by (metis length_Cons mset.simps(2) size_mset)
  have cnt: "count_severity k ?ys = count_severity k ?xs + (if k = ''info'' then 1 else 0)" for k
    using count_severity_add [OF assms(3), of k] sev by auto
  have sc: "the_score ?ys = the_score ?xs"
    by (simp add: the_score_def cnt)
  let ?s = "\<lambda>zs. \<lparr>total_issues = int (length zs),
          issues_by_severity =
            [(''critical'', count_severity ''critical'' zs), (''high'', count_severity ''high'' zs),
             (''medium'', count_severity ''medium'' zs), (''low'', count_severity ''low'' zs),
             (''info'', count_severity ''info'' zs)],
          score = the_score zs, verdict = get_verdict (the_score zs)\<rparr>"
  have 1: "generate_summary a b c = Inr (?s ?xs)" by (rule generate_summary_ok [OF assms(1)])
  have 2: "generate_summary a' b' c' = Inr (?s ?ys)" by (rule generate_summary_ok [OF wf'])
  have 3: "total_issues (?s ?ys) = total_issues (?s ?xs) + 1" using len by simp
  have 4: "dict_get (issues_by_severity (?s ?xs)) ''info'' = Inr (count_severity ''info'' ?xs)"
    by (simp add: dict_get_def)
  have 5: "dict_get (issues_by_severity (?s ?ys)) ''info'' = Inr (count_severity ''info'' ?xs + 1)"
    by (simp add: dict_get_def cnt)
  have 6: "\<forall>k. k \<noteq> ''info'' \<longrightarrow>
            dict_get (issues_by_severity (?s ?ys)) k = dict_get (issues_by_severity (?s ?xs)) k"
    by (simp add: dict_get_def cnt)
  have 7: "score (?s ?ys) = score (?s ?xs)" "verdict (?s ?ys) = verdict (?s ?xs)"
    using sc by simp_all
  from 1 2 3 4 5 6 7 show ?thesis by blast
qed

theorem missing_severity_is_info_witness:
  "\<exists>s s'. generate_summary (mk_results []) (mk_results [sample_issue ''a.py'' None (Some ''high'')])
             (mk_results []) = Inr s
        \<and> generate_summary (mk_results []) (mk_results [sample_issue ''a.py'' None (Some ''high'')])
             (mk_results [sample_issue ''c.py'' (Some 4) None]) = Inr s'
        \<and> total_issues s = 1 \<and> total_issues s' = 2
        \<and> dict_get (issues_by_severity s') ''info'' = Inr 1
        \<and> score s = 95 \<and> score s' = 95"
proof -
  let ?h = "sample_issue ''a.py'' None (Some ''high'')"
  let ?x = "sample_issue ''c.py'' (Some 4) None"
  have 1: "well_formed (get_issues (mk_results []) @ get_issues (mk_results [?h])
      @ get_issues (mk_results []))"
    by (simp add: well_formed_def get_issues_def mk_results_def sample_issue_def
        get_severity_def severities_def)
  have 2: "severity ?x = None" by (simp add: sample_issue_def)
  have 3: "mset (get_issues (mk_results []) @ get_issues (mk_results [?h])
        @ get_issues (mk_results [?x]))
      = add_mset ?x (mset (get_issues (mk_results []) @ get_issues (mk_results [?h])
        @ get_issues (mk_results [])))"
    by (simp add: get_issues_def mk_results_def)
  from missing_severity_is_info [OF 1 2 3] obtain s s' n where
    s: "generate_summary (mk_results []) (mk_results [?h]) (mk_results []) = Inr s"
       "generate_summary (mk_results []) (mk_results [?h]) (mk_results [?x]) = Inr s'"
       "total_issues s' = total_issues s + 1"
       "dict_get (issues_by_severity s) ''info'' = Inr n"
       "dict_get (issues_by_severity s') ''info'' = Inr (n + 1)"
       "score s' = score s"
    by blast
  have "score s = 95 \<and> total_issues s = 1 \<and> dict_get (issues_by_severity s) ''info'' = Inr 0"
    using s(1) by (auto simp: generate_summary_def get_issues_def mk_results_def sample_issue_def
        get_severity_def compute_score_def dict_get_def)
  with s show ?thesis by auto
qed

section \<open>The file-length check\<close>

lemma file_iter_line:
  "CHR 0x0A \<notin> set l \<Longrightarrow> CHR 0x0D \<notin> set l \<Longrightarrow>
   file_iter acc (l @ CHR 0x0A # rest) = (acc @ l @ [CHR 0x0A]) # file_iter [] rest"
  by (induction l arbitrary: acc) auto

lemma file_iter_lines:
  "\<forall>l \<in> set ls. CHR 0x0A \<notin> set l \<and> CHR 0x0D \<notin> set l \<Longrightarrow>
   file_iter [] (concat (map (\<lambda>l. l @ [CHR 0x0A]) ls)) = map (\<lambda>l. l @ [CHR 0x0A]) ls"
  by (induction ls) (simp_all add: file_iter_line)

text \<open>
  Claim C9. For every configured \<open>file_length\<close> threshold, a file that \<open>count_lines\<close>
  counts at exactly the threshold gets no file-length issue, and a file of one line more
  gets exactly one, which carries no line number. A text of \<open>n\<close> lines, each ended by a
  newline, is counted at \<open>n\<close>.
\<close>

theorem file_length_boundary:
  "(count_lines content = file_length (init_thresholds config) \<longrightarrow>
      check_file_length (init_thresholds config) content repo_path = [])
   \<and> (count_lines content = file_length (init_thresholds config) + 1 \<longrightarrow>
      (\<exists>i. check_file_length (init_thresholds config) content repo_path = [i]
         \<and> line i = None \<and> file_path i = repo_path \<and> severity i = Some ''medium''))
   \<and> ((\<forall>l \<in> set ls. CHR 0x0A \<notin> set l \<and> CHR 0x0D \<notin> set l) \<longrightarrow>
      count_lines (concat (map (\<lambda>l. l @ [CHR 0x0A]) ls)) = int (length ls))"
  by (simp add: check_file_length_def Let_def count_lines_def file_iter_lines)

theorem file_length_boundary_witness:
  "check_file_length (init_thresholds [(''file_length'', 2)]) ''a\<newline>b\<newline>'' ''x.py'' = []
   \<and> (\<exists>i. check_file_length (init_thresholds [(''file_length'', 2)]) ''a\<newline>b\<newline>c\<newline>'' ''x.py'' = [i]
         \<and> line i = None \<and> file_path i = ''x.py'')
   \<and> count_lines ''a\<newline>b\<newline>c\<newline>'' = 3"
proof -
  have th: "file_length (init_thresholds [(''file_length'', 2)]) = 2"
    by (simp add: init_thresholds_def dict_get_default_def)
  have c2: "count_lines ''a\<newline>b\<newline>'' = 2" by (simp add: count_lines_def)
  have nl: "\<forall>l \<in> set [''a'', ''b'', ''c'']. CHR 0x0A \<notin> set l \<and> CHR 0x0D \<notin> set l"
    by simp
  have c3: "count_lines ''a\<newline>b\<newline>c\<newline>'' = 3"
    using file_length_boundary [of "''a\<newline>b\<newline>''" "[(''file_length'', 2)]" "''x.py''"
        "[''a'', ''b'', ''c'']"] nl
    by simp
  from file_length_boundary [of "''a\<newline>b\<newline>''" "[(''file_length'', 2)]" "''x.py''" "[]"]
    file_length_boundary [of "''a\<newline>b\<newline>c\<newline>''" "[(''file_length'', 2)]" "''x.py''" "[]"]
    th c2 c3
  show ?thesis by auto
qed

section \<open>The order of the issues in the report\<close>

lemma format_issues_text:
  "\<forall>i \<in> set xs. severity i \<noteq> None \<Longrightarrow>
   format_issues acc xs = Inr (acc @ concat (map (\<lambda>i. issue_text (get_severity i) i) xs))"
  by (induction xs arbitrary: acc) (auto simp: get_severity_def)

lemma format_category_text:
  "\<forall>i \<in> set (get_issues r). severity i \<noteq> None \<Longrightarrow>
   format_category title r = Inr (title @ section_text (get_issues r))"
  by (simp add: format_category_def section_text_def format_issues_text)

text \<open>
  Claim C4, as the code has it. The report is not sorted: each category's section lists the
  issues in the order in which the category's reviewer returned them, the sections being
  style, security and quality in this order. This holds for every batch whose header can be
  rendered and whose issues all carry a severity.
\<close>

theorem format_results_keeps_order:
  assumes "format_header (summary rs) title = Inr h"
      and "\<forall>i \<in> set (get_issues (style rs) @ get_issues (security rs) @ get_issues (quality rs)).
             severity i \<noteq> None"
  shows "format_results rs title =
     Inr \<lparr>header = h,
          categories =
            [(''style'', ''## Style Issues\<newline>\<newline>'' @ section_text (get_issues (style rs))),
             (''security'', ''## Security Issues\<newline>\<newline>'' @ section_text (get_issues (security rs))),
             (''quality'', ''## Code Quality Issues\<newline>\<newline>'' @ section_text (get_issues (quality rs)))],
          raw_results = rs\<rparr>"
proof -
  have "format_category ''## Style Issues\<newline>\<newline>'' (style rs)
      = Inr (''## Style Issues\<newline>\<newline>'' @ section_text (get_issues (style rs)))"
    using assms(2) by (intro format_category_text) simp
  moreover have "format_category ''## Security Issues\<newline>\<newline>'' (security rs)
      = Inr (''## Security Issues\<newline>\<newline>'' @ section_text (get_issues (security rs)))"
    using assms(2) by (intro format_category_text) simp
  moreover have "format_category ''## Code Quality Issues\<newline>\<newline>'' (quality rs)
      = Inr (''## Code Quality Issues\<newline>\<newline>'' @ section_text (get_issues (quality rs)))"
    using assms(2) by (intro format_category_text) simp
  ultimately show ?thesis
    unfolding format_results_def using assms(1) by simp
qed

theorem format_results_keeps_order_witness:
  "map_sum id categories (format_results unsorted_batch ''PR'') =
     Inr [(''style'', ''## Style Issues\<newline>\<newline>No issues found.\<newline>\<newline>''),
          (''security'', ''## Security Issues\<newline>\<newline>No issues found.\<newline>\<newline>''),
          (''quality'', ''## Code Quality Issues\<newline>\<newline>''
             @ ''- **LOW**: finding\<newline>  - File: `b.py`\<newline>  - Line: 1\<newline>\<newline>''
             @ ''- **LOW**: finding\<newline>  - File: `a.py`\<newline>  - Line: 1\<newline>\<newline>'')]"
proof -
  have h: "format_header (summary unsorted_batch) ''PR'' =
      Inr (''# Code Review: PR\<newline>\<newline>## Summary\<newline>\<newline>- **Score**: 98/100\<newline>''
        @ ''- **Verdict**: Excellent code quality. Approved!\<newline>- **Total Issues**: 2\<newline>''
        @ ''  - Critical: 0, High: 0, Medium: 0, Low: 2, Info: 0\<newline>\<newline>'')"
    by code_simp
  have s: "\<forall>i \<in> set (get_issues (style unsorted_batch) @ get_issues (security unsorted_batch)
      @ get_issues (quality unsorted_batch)). severity i \<noteq> None"
    by (simp add: unsorted_batch_def get_issues_def mk_results_def sample_issue_def)
  have q: "section_text (get_issues (quality unsorted_batch)) =
      ''- **LOW**: finding\<newline>  - File: `b.py`\<newline>  - Line: 1\<newline>\<newline>''
      @ ''- **LOW**: finding\<newline>  - File: `a.py`\<newline>  - Line: 1\<newline>\<newline>''"
    by code_simp
  have e: "section_text (get_issues (style unsorted_batch)) = ''No issues found.\<newline>\<newline>''"
      "section_text (get_issues (security unsorted_batch)) = ''No issues found.\<newline>\<newline>''"
    by code_simp+
  show ?thesis
    unfolding format_results_keeps_order [OF h s] q e by simp
qed

text \<open>
  Claim C4, as stated, fails: for the batch whose quality reviewer reports a finding in
  \<open>b.py\<close> and then one in \<open>a.py\<close>, the report lists \<open>b.py\<close> first, which is not the
  required order by file path; the sorted report would list \<open>a.py\<close> first.
\<close>

theorem report_not_sorted:
  "map_sum id categories (format_results unsorted_batch ''PR'') =
     Inr [(''style'', ''## Style Issues\<newline>\<newline>No issues found.\<newline>\<newline>''),
          (''security'', ''## Security Issues\<newline>\<newline>No issues found.\<newline>\<newline>''),
          (''quality'', ''## Code Quality Issues\<newline>\<newline>''
             @ ''- **LOW**: finding\<newline>  - File: `b.py`\<newline>  - Line: 1\<newline>\<newline>''
             @ ''- **LOW**: finding\<newline>  - File: `a.py`\<newline>  - Line: 1\<newline>\<newline>'')]
   \<and> get_issues (quality unsorted_batch)
       = [sample_issue ''b.py'' (Some 1) (Some ''low''), sample_issue ''a.py'' (Some 1) (Some ''low'')]
   \<and> \<not> sorted_wrt spec_report_order
         [sample_issue ''b.py'' (Some 1) (Some ''low''), sample_issue ''a.py'' (Some 1) (Some ''low'')]
   \<and> sorted_wrt spec_report_order
         [sample_issue ''a.py'' (Some 1) (Some ''low''), sample_issue ''b.py'' (Some 1) (Some ''low'')]"
proof -
  have 1: "map_sum id categories (format_results unsorted_batch ''PR'') =
     Inr [(''style'', ''## Style Issues\<newline>\<newline>No issues found.\<newline>\<newline>''),
          (''security'', ''## Security Issues\<newline>\<newline>No issues found.\<newline>\<newline>''),
          (''quality'', ''## Code Quality Issues\<newline>\<newline>''
             @ ''- **LOW**: finding\<newline>  - File: `b.py`\<newline>  - Line: 1\<newline>\<newline>''
             @ ''- **LOW**: finding\<newline>  - File: `a.py`\<newline>  - Line: 1\<newline>\<newline>'')]"
    by code_simp
  have 2: "get_issues (quality unsorted_batch)
       = [sample_issue ''b.py'' (Some 1) (Some ''low''), sample_issue ''a.py'' (Some 1) (Some ''low'')]"
    by (simp add: unsorted_batch_def get_issues_def mk_results_def)
  have 3: "\<not> spec_report_order (sample_issue ''b.py'' (Some 1) (Some ''low''))
      (sample_issue ''a.py'' (Some 1) (Some ''low''))"
    by (simp add: spec_report_order_def sample_issue_def)
  have 4: "spec_report_order (sample_issue ''a.py'' (Some 1) (Some ''low''))
      (sample_issue ''b.py'' (Some 1) (Some ''low''))"
    by (simp add: spec_report_order_def sample_issue_def)
  from 1 2 3 4 show ?thesis by simp
qed

section \<open>Grouping of the windows\<close>

lemma dict_append_map_of:
  "map_of (dict_append d k v) =
     (map_of d)(k \<mapsto> (case map_of d k of None \<Rightarrow> [v] | Some vs \<Rightarrow> vs @ [v]))"
  by (induction d) (auto simp: fun_upd_twist)

lemma dict_append_keys: "fst ` set (dict_append d k v) = insert k (fst ` set d)"
  by (induction d) (force split: if_splits)+

lemma dict_append_distinct:
  "distinct (map fst d) \<Longrightarrow> distinct (map fst (dict_append d k v))"
proof (induction d)
  case Nil
  then show ?case by simp
next
  case (Cons p d)
  obtain k' vs where p: "p = (k', vs)" by (cases p)
  have "k' \<notin> fst ` set (dict_append d k v)" if "k' \<noteq> k"
    using Cons.prems p that by (simp add: dict_append_keys)
  then show ?case using Cons p by auto
qed

lemma blocks_fold:
  "distinct (map fst d) \<Longrightarrow>
   distinct (map fst (fold (dup_step lines) js d))
   \<and> (\<forall>b. map_of (fold (dup_step lines) js d) b =
        (case map_of d b of
           None \<Rightarrow> (if skipped b \<or> filter (\<lambda>i. window lines i = b) js = [] then None
                     else Some (map Suc (filter (\<lambda>i. window lines i = b) js)))
         | Some us \<Rightarrow> Some (us @ (if skipped b then []
                                   else map Suc (filter (\<lambda>i. window lines i = b) js)))))"
proof (induction js arbitrary: d)
  case Nil
  then show ?case by (auto split: option.splits)
next
  case (Cons j js)
  show ?case
  proof (cases "skipped (window lines j)")
    case True
    then have step: "dup_step lines j d = d" by (simp add: dup_step_def)
    show ?thesis
      using Cons.IH [OF Cons.prems] True unfolding fold_simps step
      by (auto split: option.splits)
  next
    case False
    then have step: "dup_step lines j d = dict_append d (window lines j) (j + 1)"
      by (simp add: dup_step_def)
    have dist: "distinct (map fst (dict_append d (window lines j) (j + 1)))"
      using Cons.prems by (rule dict_append_distinct)
    show ?thesis
      using Cons.IH [OF dist] False unfolding fold_simps step
      by (auto simp: dict_append_map_of split: option.splits)
  qed
qed

lemma skipped_iff: "skipped b = (strip b = [] \<or> 3 \<le> count_char (CHR ''#'') b)"
  by (auto simp: skipped_def block_size_def)

lemma blocks_grouped:
  "distinct (map fst (duplication_blocks lines))
   \<and> map_of (duplication_blocks lines) b =
       (if skipped b \<or> positions lines b = [] then None else Some (positions lines b))"
proof -
  have d: "distinct (map fst ([] :: (string \<times> nat list) list))" by simp
  from blocks_fold [OF d, of lines "[0..<window_count lines]"]
  show ?thesis
    unfolding duplication_blocks_def positions_def by auto
qed

lemma splitlines_from_line:
  "\<forall>c \<in> set l. \<not> is_linebreak c \<Longrightarrow>
   splitlines_from acc (l @ CHR 0x0A # rest) = (acc @ l) # splitlines_from [] rest"
proof (induction l arbitrary: acc)
  case Nil
  show ?case by (simp add: is_linebreak_def)
next
  case (Cons c l)
  then have c: "\<not> is_linebreak c" and l: "\<forall>c \<in> set l. \<not> is_linebreak c" by simp_all
  from c have "c \<noteq> CHR 0x0D" by (auto simp: is_linebreak_def)
  then show ?case using c Cons.IH [OF l] by simp
qed

lemma splitlines_joined:
  "\<forall>l \<in> set ls. \<forall>c \<in> set l. \<not> is_linebreak c \<Longrightarrow>
   splitlines (concat (map (\<lambda>l. l @ [CHR 0x0A]) ls)) = ls"
proof -
  assume a: "\<forall>l \<in> set ls. \<forall>c \<in> set l. \<not> is_linebreak c"
  then have "splitlines_from [] (concat (map (\<lambda>l. l @ [CHR 0x0A]) ls)) = ls"
    by (induction ls) (simp_all add: splitlines_from_line)
  then show ?thesis by (simp add: splitlines_def)
qed

lemma sample_lines:
  "splitlines (file_with_block code_block) = numbered 1 10 @ code_block @ numbered 15 50 @ code_block"
  "splitlines (file_with_block hash_block) = numbered 1 10 @ hash_block @ numbered 15 50 @ hash_block"
proof -
  have "\<forall>l \<in> set (numbered 1 10 @ code_block @ numbered 15 50 @ code_block).
      \<forall>c \<in> set l. \<not> is_linebreak c"
    by code_simp
  then show "splitlines (file_with_block code_block)
      = numbered 1 10 @ code_block @ numbered 15 50 @ code_block"
    unfolding file_with_block_def by (rule splitlines_joined)
  have "\<forall>l \<in> set (numbered 1 10 @ hash_block @ numbered 15 50 @ hash_block).
      \<forall>c \<in> set l. \<not> is_linebreak c"
    by code_simp
  then show "splitlines (file_with_block hash_block)
      = numbered 1 10 @ hash_block @ numbered 15 50 @ hash_block"
    unfolding file_with_block_def by (rule splitlines_joined)
qed

text \<open>
  Claim C7, as the code has it. The duplication check examines a file of at least ten lines
  only: on a shorter file it returns no issue, before any window is read. In a file of at
  least ten lines, a window is left out of the grouping exactly when its text is empty after
  stripping white space or holds at least three \<open>#\<close> characters (more than half of the
  block size of five), whatever the lines are. Every other window is entered under its
  text: the dictionary has one entry for each such text, holding the start lines of all the
  windows with this text, in ascending order, and the issues are read off this dictionary.
\<close>

theorem duplication_groups:
  "(length (splitlines content) < 10 \<longrightarrow> check_duplication content repo_path = [])
   \<and> (10 \<le> length (splitlines content) \<longrightarrow>
        check_duplication content repo_path
          = duplication_issues repo_path (duplication_blocks (splitlines content))
        \<and> distinct (map fst (duplication_blocks (splitlines content)))
        \<and> map_of (duplication_blocks (splitlines content)) b =
            (if strip b = [] \<or> 3 \<le> count_char (CHR ''#'') b
                \<or> positions (splitlines content) b = [] then None
             else Some (positions (splitlines content) b)))"
  using blocks_grouped [of "splitlines content" b] unfolding skipped_iff
  by (simp add: check_duplication_def)

theorem duplication_groups_witness:
  "check_duplication (concat (map (\<lambda>l. l @ [CHR 0x0A]) (replicate 9 ''x = 1''))) ''src/f.py'' = []
   \<and> map_of (duplication_blocks (splitlines (file_with_block code_block))) (window code_block 0)
     = Some [10, 50]
   \<and> map_of (duplication_blocks (splitlines (file_with_block hash_block))) (window hash_block 0)
     = None"
proof -
  let ?short = "concat (map (\<lambda>l. l @ [CHR 0x0A]) (replicate 9 ''x = 1''))"
  have "\<forall>l \<in> set (replicate 9 ''x = 1''). \<forall>c \<in> set l. \<not> is_linebreak c" by code_simp
  then have "splitlines ?short = replicate 9 ''x = 1''" by (rule splitlines_joined)
  then have 0: "length (splitlines ?short) < 10" by simp
  have c: "10 \<le> length (splitlines (file_with_block code_block))"
    unfolding sample_lines by code_simp
  have h: "10 \<le> length (splitlines (file_with_block hash_block))"
    unfolding sample_lines by code_simp
  have 1: "(if strip (window code_block 0) = [] \<or> 3 \<le> count_char (CHR ''#'') (window code_block 0)
         \<or> positions (splitlines (file_with_block code_block)) (window code_block 0) = [] then None
        else Some (positions (splitlines (file_with_block code_block)) (window code_block 0)))
      = Some [10, 50]"
    unfolding sample_lines by code_simp
  have 2: "(if strip (window hash_block 0) = [] \<or> 3 \<le> count_char (CHR ''#'') (window hash_block 0)
         \<or> positions (splitlines (file_with_block hash_block)) (window hash_block 0) = [] then None
        else Some (positions (splitlines (file_with_block hash_block)) (window hash_block 0)))
      = None"
    unfolding sample_lines by code_simp
  from duplication_groups [of ?short "''src/f.py''" "[]"] 0
  have r0: "check_duplication ?short ''src/f.py'' = []" by simp
  from duplication_groups [of "file_with_block code_block" "''src/f.py''" "window code_block 0"] c
  have r1: "map_of (duplication_blocks (splitlines (file_with_block code_block)))
      (window code_block 0) = Some [10, 50]"
    unfolding 1 by simp
  from duplication_groups [of "file_with_block hash_block" "''src/f.py''" "window hash_block 0"] h
  have r2: "map_of (duplication_blocks (splitlines (file_with_block hash_block)))
      (window hash_block 0) = None"
    unfolding 2 by simp
  from r0 r1 r2 show ?thesis by blast
qed

text \<open>
  Claim C7, as stated, fails in both directions. The window of \<open>hash_block\<close> has no pure
  comment line and is not blank, yet it is skipped, for its three trailing comments hold
  three \<open>#\<close> characters; so it enters no group although the file has it twice. A window
  with three \<open>//\<close> comment lines out of five is not skipped.
\<close>

theorem skip_rule_counts_hash_characters:
  "skipped (window hash_block 0) \<and> \<not> spec_skipped hash_block
   \<and> map_of (duplication_blocks (splitlines (file_with_block hash_block))) (window hash_block 0) = None
   \<and> positions (splitlines (file_with_block hash_block)) (window hash_block 0) = [10, 50]
   \<and> \<not> skipped (window [''// one'', ''// two'', ''// three'', ''x = 1'', ''y = 2''] 0)
   \<and> spec_skipped [''// one'', ''// two'', ''// three'', ''x = 1'', ''y = 2'']"
proof -
  have 1: "skipped (window hash_block 0)" unfolding sample_lines by code_simp
  have 2: "\<not> spec_skipped hash_block" unfolding sample_lines by code_simp
  have 3: "map_of (duplication_blocks (splitlines (file_with_block hash_block)))
      (window hash_block 0) = None"
    unfolding sample_lines by code_simp
  have 4: "positions (splitlines (file_with_block hash_block)) (window hash_block 0) = [10, 50]"
    unfolding sample_lines by code_simp
  have 5: "\<not> skipped (window [''// one'', ''// two'', ''// three'', ''x = 1'', ''y = 2''] 0)"
    unfolding sample_lines by code_simp
  have 6: "spec_skipped [''// one'', ''// two'', ''// three'', ''x = 1'', ''y = 2'']"
    unfolding sample_lines by code_simp
  from 1 2 3 4 5 6 show ?thesis by blast
qed

section \<open>One duplicated block\<close>

lemma duplication_issues_none:
  "\<forall>p \<in> set D. length (snd p) \<le> 1 \<Longrightarrow> duplication_issues repo_path D = []"
  by (induction repo_path D rule: duplication_issues.induct) auto

lemma duplication_issues_single:
  "distinct (map fst D) \<Longrightarrow> map_of D b0 = Some (n # m # ns) \<Longrightarrow>
   (\<forall>b vs. map_of D b = Some vs \<longrightarrow> b \<noteq> b0 \<longrightarrow> length vs \<le> 1) \<Longrightarrow>
   duplication_issues repo_path D =
     [\<lparr>file_path = repo_path, line = Some (int n),
       message = ''Duplicated code block found at lines ''
                 @ join '', '' (map (\<lambda>k. str_int (int k)) (n # m # ns)),
       severity = Some ''medium'', issue_type = ''quality'', code = None,
       suggestion = Some ''Extract duplicated code into a reusable function''\<rparr>]"
proof (induction D)
  case Nil
  then show ?case by simp
next
  case (Cons p D)
  obtain k vs where p: "p = (k, vs)" by (cases p)
  have notin: "k \<notin> fst ` set D" using Cons.prems(1) p by simp
  show ?case
  proof (cases "k = b0")
    case True
    then have vs: "vs = n # m # ns" using Cons.prems(2) p by simp
    have "\<forall>q \<in> set D. length (snd q) \<le> 1"
    proof
      fix q assume q: "q \<in> set D"
      obtain b us where qb: "q = (b, us)" by (cases q)
      have "distinct (map fst D)" using Cons.prems(1) by simp
      then have "map_of D b = Some us" using q qb by simp
      moreover have "b \<noteq> k" using notin q qb by force
      ultimately have "map_of (p # D) b = Some us" using p by simp
      then show "length (snd q) \<le> 1" using Cons.prems(3) \<open>b \<noteq> k\<close> True qb by auto
    qed
    then have "duplication_issues repo_path D = []" by (rule duplication_issues_none)
    then show ?thesis using p vs by simp
  next
    case False
    then have "map_of (p # D) k = Some vs" using p by simp
    then have short: "length vs \<le> 1" using Cons.prems(3) False by blast
    have 1: "distinct (map fst D)" using Cons.prems(1) by simp
    have 2: "map_of D b0 = Some (n # m # ns)" using Cons.prems(2) p False by simp
    have 3: "\<forall>b us. map_of D b = Some us \<longrightarrow> b \<noteq> b0 \<longrightarrow> length us \<le> 1"
    proof (intro allI impI)
      fix b us assume a: "map_of D b = Some us" "b \<noteq> b0"
      then have "b \<in> fst ` set D" by (metis map_of_eq_None_iff option.distinct(1))
      then have "b \<noteq> k" using notin by auto
      then have "map_of (p # D) b = Some us" using a p by simp
      then show "length us \<le> 1" using Cons.prems(3) a(2) by blast
    qed
    have "duplication_issues repo_path (p # D) = duplication_issues repo_path D"
    proof (cases vs)
      case Nil
      then show ?thesis using p by simp
    next
      case (Cons a as)
      then have "as = []" using short by simp
      then show ?thesis using p Cons by simp
    qed
    then show ?thesis using Cons.IH [OF 1 2 3] by simp
  qed
qed

lemma two_elements:
  "distinct xs \<Longrightarrow> 2 \<le> length xs \<Longrightarrow> \<exists>i \<in> set xs. \<exists>j \<in> set xs. i < (j::nat)"
proof -
  assume d: "distinct xs" and l: "2 \<le> length xs"
  then obtain a b rest where xs: "xs = a # b # rest"
    by (cases xs; cases "tl xs") auto
  then have "a \<noteq> b" using d by simp
  then have "a < b \<or> b < a" by auto
  then show ?thesis using xs by auto
qed

text \<open>
  Claim C6, with the condition the code adds. A file has the same five lines at lines 10 to
  14 and at lines 50 to 54, their window is not one the check skips (it is not blank and has
  fewer than three \<open>#\<close> characters), and no other two windows that are not skipped have
  the same text. Then the duplication check produces exactly one issue: of severity medium,
  at line 10, with the message listing the lines 10 and 50.
\<close>

theorem one_duplicated_block:
  assumes lines: "lines = splitlines content"
      and len: "54 \<le> length lines"
      and same: "take 5 (drop 9 lines) = take 5 (drop 49 lines)"
      and kept: "\<not> skipped (window lines 9)"
      and others: "\<forall>i \<in> set [0..<window_count lines].
                   \<forall>j \<in> set [0..<window_count lines].
                     i < j \<longrightarrow> window lines i = window lines j \<longrightarrow>
                     skipped (window lines i) \<or> (i = 9 \<and> j = 49)"
  shows "check_duplication content repo_path =
     [\<lparr>file_path = repo_path, line = Some 10,
       message = ''Duplicated code block found at lines 10, 50'',
       severity = Some ''medium'', issue_type = ''quality'', code = None,
       suggestion = Some ''Extract duplicated code into a reusable function''\<rparr>]"
proof -
  define n where "n = window_count lines"
  let ?b0 = "window lines 9"
  let ?D = "duplication_blocks lines"
  have n: "50 \<le> n" using len by (simp add: window_count_def block_size_def n_def)
  have w: "window lines 49 = ?b0" using same by (simp add: window_def block_size_def)
  have oth: "skipped (window lines i) \<or> (i = 9 \<and> j = 49)"
    if "i < j" "j < n" "window lines i = window lines j" for i j
  proof -
    have "i \<in> set [0..<n]" "j \<in> set [0..<n]" using that(1,2) by auto
    with others that(1,3) show ?thesis unfolding n_def [symmetric] by blast
  qed
  have pos: "positions lines b = map Suc (filter (\<lambda>i. window lines i = b) [0..<n])" for b
    by (simp only: positions_def n_def)
  have set0: "set (filter (\<lambda>i. window lines i = ?b0) [0..<n]) = {9, 49}"
  proof (intro equalityI subsetI)
    fix i assume "i \<in> set (filter (\<lambda>i. window lines i = ?b0) [0..<n])"
    then have i: "i < n" "window lines i = ?b0" by auto
    have "i = 9 \<or> i = 49"
    proof (rule ccontr)
      assume c: "\<not> (i = 9 \<or> i = 49)"
      then consider "i < 9" | "9 < i" by linarith
      then show False
      proof cases
        case 1
        have "9 < n" using n by simp
        from oth [OF 1 this i(2)] kept i(2) 1 show False by auto
      next
        case 2
        from oth [OF 2 i(1)] i(2) kept c show False by auto
      qed
    qed
    then show "i \<in> {9, 49}" by simp
  next
    fix i assume "i \<in> {9, 49::nat}"
    then show "i \<in> set (filter (\<lambda>i. window lines i = ?b0) [0..<n])"
      using n w by auto
  qed
  have "filter (\<lambda>i. window lines i = ?b0) [0..<n] = [9, 49]"
  proof (rule sorted_distinct_set_unique)
    show "sorted (filter (\<lambda>i. window lines i = ?b0) [0..<n])" by (simp add: sorted_wrt_filter)
    show "distinct (filter (\<lambda>i. window lines i = ?b0) [0..<n])" by simp
    show "sorted [9, 49::nat]" by simp
    show "distinct [9, 49::nat]" by simp
    show "set (filter (\<lambda>i. window lines i = ?b0) [0..<n]) = set [9, 49]" using set0 by simp
  qed
  then have pos0: "positions lines ?b0 = [10, 50]" unfolding pos by simp
  have dist: "distinct (map fst ?D)" using blocks_grouped [of lines ?b0] by simp
  have b0: "map_of ?D ?b0 = Some (10 # 50 # [])"
    using blocks_grouped [of lines ?b0] kept pos0 by simp
  have short: "\<forall>b vs. map_of ?D b = Some vs \<longrightarrow> b \<noteq> ?b0 \<longrightarrow> length vs \<le> 1"
  proof (intro allI impI)
    fix b vs assume a: "map_of ?D b = Some vs" "b \<noteq> ?b0"
    from a(1) blocks_grouped [of lines b]
    have nb: "\<not> skipped b" and vs: "vs = positions lines b"
      by (auto split: if_splits)
    show "length vs \<le> 1"
    proof (rule ccontr)
      assume "\<not> length vs \<le> 1"
      then have "2 \<le> length (filter (\<lambda>i. window lines i = b) [0..<n])"
        unfolding vs pos by simp
      moreover have "distinct (filter (\<lambda>i. window lines i = b) [0..<n])" by simp
      ultimately obtain i j where
        ij: "i \<in> set (filter (\<lambda>i. window lines i = b) [0..<n])"
            "j \<in> set (filter (\<lambda>i. window lines i = b) [0..<n])" "i < j"
        using two_elements by blast
      then have "j < n" "window lines i = window lines j" "window lines i = b" by auto
      from oth [OF ij(3) this(1,2)] this(3) nb a(2) show False by auto
    qed
  qed
  have msg: "join '', '' (map (\<lambda>k. str_int (int k)) [10, 50 :: nat]) = ''10, 50''"
    by code_simp
  have "duplication_issues repo_path ?D =
     [\<lparr>file_path = repo_path, line = Some (int 10),
       message = ''Duplicated code block found at lines ''
                 @ join '', '' (map (\<lambda>k. str_int (int k)) (10 # 50 # [])),
       severity = Some ''medium'', issue_type = ''quality'', code = None,
       suggestion = Some ''Extract duplicated code into a reusable function''\<rparr>]"
    by (rule duplication_issues_single [OF dist b0 short])
  then show ?thesis
    using len lines unfolding check_duplication_def msg by simp
qed

lemma only_pair_from_distinct:
  assumes n: "window_count L = 50"
      and d: "distinct (map (window L) [0..<49])"
      and w: "window L 49 = window L 9"
  shows "\<forall>i \<in> set [0..<window_count L].
           \<forall>j \<in> set [0..<window_count L].
             i < j \<longrightarrow> window L i = window L j \<longrightarrow>
             skipped (window L i) \<or> (i = 9 \<and> j = 49)"
proof (intro ballI impI)
  fix i j
  assume "j \<in> set [0..<window_count L]" and ij: "i < j"
    and e: "window L i = window L j"
  then have j: "j < 50" unfolding n by simp
  have inj: "inj_on (window L) (set [0..<49])"
    using d by (simp only: distinct_map)
  have eq: "a = b" if "a < 49" "b < 49" "window L a = window L b" for a b
    using inj that by (auto simp: inj_on_def)
  show "skipped (window L i) \<or> (i = 9 \<and> j = 49)"
  proof (cases "j = 49")
    case True
    then have "window L i = window L 9" using e w by simp
    moreover have "i < 49" using ij True by simp
    ultimately have "i = 9" by (intro eq) simp_all
    then show ?thesis using True by simp
  next
    case False
    then have "j < 49" using j by simp
    moreover have "i < 49" using ij \<open>j < 49\<close> by simp
    ultimately have "i = j" using e by (intro eq)
    then show ?thesis using ij by simp
  qed
qed

theorem one_duplicated_block_witness:
  "check_duplication (file_with_block code_block) ''src/f.py'' =
     [\<lparr>file_path = ''src/f.py'', line = Some 10,
       message = ''Duplicated code block found at lines 10, 50'',
       severity = Some ''medium'', issue_type = ''quality'', code = None,
       suggestion = Some ''Extract duplicated code into a reusable function''\<rparr>]"
proof -
  let ?L = "splitlines (file_with_block code_block)"
  have 1: "54 \<le> length ?L" unfolding sample_lines by code_simp
  have 2: "take 5 (drop 9 ?L) = take 5 (drop 49 ?L)" unfolding sample_lines by code_simp
  have 3: "\<not> skipped (window ?L 9)" unfolding sample_lines by code_simp
  have n: "window_count ?L = 50" unfolding sample_lines by code_simp
  have d: "distinct (map (window ?L) [0..<49])" unfolding sample_lines by code_simp
  have w: "window ?L 49 = window ?L 9" unfolding sample_lines by code_simp
  have 4: "\<forall>i \<in> set [0..<window_count ?L].
             \<forall>j \<in> set [0..<window_count ?L].
               i < j \<longrightarrow> window ?L i = window ?L j \<longrightarrow>
               skipped (window ?L i) \<or> (i = 9 \<and> j = 49)"
    by (rule only_pair_from_distinct [OF n d w])
  show ?thesis by (rule one_duplicated_block [OF refl 1 2 3 4])
qed

text \<open>
  Claim C6, as stated, fails: the file \<open>file_with_block hash_block\<close> has 54 lines, the
  same five lines at lines 10 to 14 and 50 to 54, and no other two windows with the same
  text (the first 49 windows are pairwise different). The block is code: none of its lines
  is a pure comment and it is not blank, so the skip rule of the specification keeps it.
  Yet the check reports nothing, for the three trailing comments of the block hold three
  \<open>#\<close> characters and the check skips its window.
\<close>

theorem skipped_block_not_reported:
  "length (splitlines (file_with_block hash_block)) = 54
   \<and> take 5 (drop 9 (splitlines (file_with_block hash_block))) = hash_block
   \<and> take 5 (drop 49 (splitlines (file_with_block hash_block))) = hash_block
   \<and> distinct (map (window (splitlines (file_with_block hash_block))) [0..<49])
   \<and> \<not> spec_skipped hash_block
   \<and> check_duplication (file_with_block hash_block) ''src/f.py'' = []"
proof -
  have 1: "length (splitlines (file_with_block hash_block)) = 54"
    unfolding sample_lines by code_simp
  have 2: "take 5 (drop 9 (splitlines (file_with_block hash_block))) = hash_block"
    unfolding sample_lines by code_simp
  have 3: "take 5 (drop 49 (splitlines (file_with_block hash_block))) = hash_block"
    unfolding sample_lines by code_simp
  have 4: "distinct (map (window (splitlines (file_with_block hash_block))) [0..<49])"
    unfolding sample_lines by code_simp
  have 5: "\<not> spec_skipped hash_block" by code_simp
  have 6: "check_duplication (file_with_block hash_block) ''src/f.py'' = []"
    unfolding check_duplication_def sample_lines by code_simp
  from 1 2 3 4 5 6 show ?thesis by blast
qed

section \<open>Function length and complexity\<close>

lemma fold_count:
  "fold (\<lambda>p c. if P p then c + 1 else c) ps (c::int) = c + int (length (filter P ps))"
  by (induction ps arbitrary: c) auto

lemma estimate_complexity_hits: "estimate_complexity ls = 1 + int (pattern_hits ls)"
proof -
  have "fold (\<lambda>l c. fold (\<lambda>p c. if re_search False p l \<noteq> None then c + 1 else c)
                         control_flow_patterns c) ls c
      = c + int (length (concat (map (\<lambda>l. filter (\<lambda>p. re_search False p l \<noteq> None)
                                                 control_flow_patterns) ls)))" for c :: int
    by (induction ls arbitrary: c) (simp_all add: fold_count)
  then show ?thesis by (simp add: estimate_complexity_def pattern_hits_def)
qed

lemma file_of_lines:
  "\<forall>l \<in> set ls. \<forall>c \<in> set l. \<not> is_linebreak c \<Longrightarrow> splitlines (file_of ls) = ls"
  unfolding file_of_def by (rule splitlines_joined)

text \<open>
  Claim C5, as the code has it. For every function span the analyzer finds, the reported
  complexity is 1 plus the number of pairs of a line of the span and a control-flow pattern
  such that the pattern is found in the line: a keyword that occurs several times in one
  line counts once for it. A span longer than \<open>function_length\<close> yields a length issue and
  a span whose complexity exceeds \<open>complexity\<close> yields a separate complexity issue, both at
  the start line of the span.
\<close>

theorem function_issues_of_span:
  assumes "f \<in> set (find_functions (splitlines content) (get_function_patterns file_ext))"
  defines "span \<equiv> span_lines (splitlines content) f"
  shows "estimate_complexity span = 1 + int (pattern_hits span)
     \<and> (function_length th < int (f_length f) \<longrightarrow>
          length_issue th repo_path f \<in> set (check_functions th content repo_path file_ext))
     \<and> (complexity th < 1 + int (pattern_hits span) \<longrightarrow>
          complexity_issue th repo_path f (1 + int (pattern_hits span))
            \<in> set (check_functions th content repo_path file_ext))
     \<and> line (length_issue th repo_path f) = Some (int (start_line f))
     \<and> line (complexity_issue th repo_path f (1 + int (pattern_hits span)))
          = Some (int (start_line f))"
proof -
  have 1: "estimate_complexity span = 1 + int (pattern_hits span)"
    by (rule estimate_complexity_hits)
  have sub: "set (function_issues th (splitlines content) repo_path f)
      \<subseteq> set (check_functions th content repo_path file_ext)"
    using assms(1) by (auto simp: check_functions_def Let_def)
  have 2: "function_length th < int (f_length f) \<longrightarrow>
          length_issue th repo_path f \<in> set (check_functions th content repo_path file_ext)"
    using sub by (auto simp: function_issues_def)
  have 3: "complexity th < 1 + int (pattern_hits span) \<longrightarrow>
          complexity_issue th repo_path f (1 + int (pattern_hits span))
            \<in> set (check_functions th content repo_path file_ext)"
    using sub 1 unfolding span_def by (auto simp: function_issues_def Let_def)
  have 4: "line (length_issue th repo_path f) = Some (int (start_line f))"
    by (simp add: length_issue_def)
  have 5: "line (complexity_issue th repo_path f (1 + int (pattern_hits span)))
          = Some (int (start_line f))"
    by (simp add: complexity_issue_def)
  from 1 2 3 4 5 show ?thesis by blast
qed

lemma sample_functions:
  "splitlines (file_of long_function) = long_function"
  "splitlines (file_of nested_ifs) = nested_ifs"
proof -
  have "\<forall>l \<in> set long_function. \<forall>c \<in> set l. \<not> is_linebreak c" by code_simp
  then show "splitlines (file_of long_function) = long_function" by (rule file_of_lines)
  have "\<forall>l \<in> set nested_ifs. \<forall>c \<in> set l. \<not> is_linebreak c" by code_simp
  then show "splitlines (file_of nested_ifs) = nested_ifs" by (rule file_of_lines)
qed

theorem function_issues_of_span_witness:
  "find_functions (splitlines (file_of long_function)) (get_function_patterns ''.py'')
     = [\<lparr>f_name = Some ''f'', f_type = ''function'', start_line = 1, end_line = 55,
          f_length = 55\<rparr>]
   \<and> \<lparr>file_path = ''src/m.py'', line = Some 1,
       message = ''Function '' @ [CHR 0x27] @ ''f'' @ [CHR 0x27]
                 @ '' is too long (55 lines, threshold: 50)'',
       severity = Some ''medium'', issue_type = ''quality'', code = None,
       suggestion = Some ''Break down the function into smaller, more focused functions''\<rparr>
     \<in> set (check_functions (init_thresholds []) (file_of long_function) ''src/m.py'' ''.py'')
   \<and> \<lparr>file_path = ''src/m.py'', line = Some 1,
       message = ''Function '' @ [CHR 0x27] @ ''f'' @ [CHR 0x27]
                 @ '' is too complex (estimated complexity: 13, threshold: 10)'',
       severity = Some ''medium'', issue_type = ''quality'', code = None,
       suggestion = Some ''Reduce complexity by extracting logic into helper functions''\<rparr>
     \<in> set (check_functions (init_thresholds []) (file_of long_function) ''src/m.py'' ''.py'')"
proof -
  let ?f = "\<lparr>f_name = Some ''f'', f_type = ''function'', start_line = 1, end_line = 55,
          f_length = 55\<rparr>"
  let ?th = "init_thresholds []"
  have fs: "find_functions (splitlines (file_of long_function)) (get_function_patterns ''.py'')
      = [?f]"
    unfolding sample_functions by code_simp
  then have mem: "?f \<in> set (find_functions (splitlines (file_of long_function))
      (get_function_patterns ''.py''))"
    by simp
  have hits: "pattern_hits (span_lines (splitlines (file_of long_function)) ?f) = 12"
    unfolding sample_functions by code_simp
  have th: "function_length ?th = 50" "complexity ?th = 10"
    by (simp_all add: init_thresholds_def dict_get_default_def)
  have li: "length_issue ?th ''src/m.py'' ?f =
     \<lparr>file_path = ''src/m.py'', line = Some 1,
       message = ''Function '' @ [CHR 0x27] @ ''f'' @ [CHR 0x27]
                 @ '' is too long (55 lines, threshold: 50)'',
       severity = Some ''medium'', issue_type = ''quality'', code = None,
       suggestion = Some ''Break down the function into smaller, more focused functions''\<rparr>"
    by code_simp
  have ci: "complexity_issue ?th ''src/m.py'' ?f 13 =
     \<lparr>file_path = ''src/m.py'', line = Some 1,
       message = ''Function '' @ [CHR 0x27] @ ''f'' @ [CHR 0x27]
                 @ '' is too complex (estimated complexity: 13, threshold: 10)'',
       severity = Some ''medium'', issue_type = ''quality'', code = None,
       suggestion = Some ''Reduce complexity by extracting logic into helper functions''\<rparr>"
    by code_simp
  from function_issues_of_span [OF mem, of ?th "''src/m.py''"] hits th
  have "length_issue ?th ''src/m.py'' ?f
      \<in> set (check_functions ?th (file_of long_function) ''src/m.py'' ''.py'')"
    and "complexity_issue ?th ''src/m.py'' ?f 13
      \<in> set (check_functions ?th (file_of long_function) ''src/m.py'' ''.py'')"
    by simp_all
  then show ?thesis unfolding li ci using fs by simp
qed

text \<open>
  Claim C5, as stated, fails: the analyzer finds the one-line JavaScript function
  \<open>function f() { if (a) { if (b) { c(); } } }\<close> as a span; the span holds two
  occurrences of \<open>if\<close>, so the claim gives complexity 3, and the reported complexity is 2.
\<close>

theorem repeated_keyword_counted_once:
  "find_functions (splitlines (file_of nested_ifs)) (get_function_patterns ''.js'')
     = [\<lparr>f_name = Some ''f'', f_type = ''function'', start_line = 1, end_line = 1, f_length = 1\<rparr>]
   \<and> span_lines (splitlines (file_of nested_ifs))
        \<lparr>f_name = Some ''f'', f_type = ''function'', start_line = 1, end_line = 1, f_length = 1\<rparr>
       = nested_ifs
   \<and> spec_occurrences nested_ifs = 2
   \<and> estimate_complexity nested_ifs = 2"
proof -
  have 1: "find_functions (splitlines (file_of nested_ifs)) (get_function_patterns ''.js'')
     = [\<lparr>f_name = Some ''f'', f_type = ''function'', start_line = 1, end_line = 1, f_length = 1\<rparr>]"
    unfolding sample_functions by code_simp
  have 2: "span_lines (splitlines (file_of nested_ifs))
        \<lparr>f_name = Some ''f'', f_type = ''function'', start_line = 1, end_line = 1, f_length = 1\<rparr>
       = nested_ifs"
    unfolding sample_functions by code_simp
  have 3: "spec_occurrences nested_ifs = 2" by code_simp
  have 4: "estimate_complexity nested_ifs = 2" by code_simp
  from 1 2 3 4 show ?thesis by blast
qed

section \<open>The hardcoded-secret rule\<close>

lemma zip_filter_index:
  "filter (\<lambda>(j, l). j = i \<and> P l) (zip [0..<length ls] ls)
     = (if i < length ls \<and> P (ls ! i) then [(i, ls ! i)] else [])"
proof (induction ls rule: rev_induct)
  case Nil
  show ?case by simp
next
  case (snoc x xs)
  have z: "zip [0..<length (xs @ [x])] (xs @ [x]) = zip [0..<length xs] xs @ [(length xs, x)]"
    by simp
  show ?case
  proof (cases "i < length xs")
    case True
    then show ?thesis unfolding z using snoc by (simp add: nth_append)
  next
    case False
    then show ?thesis unfolding z using snoc by (auto simp: nth_append)
  qed
qed

lemma pattern_issues_at:
  "filter (\<lambda>x. code x = Some k \<and> line x = Some (int i + 1))
          (pattern_issues repo_path ls (check_name, pat, msg, sev))
     = (if k = check_name \<and> i < length ls \<and> re_search True pat (ls ! i) \<noteq> None
        then [\<lparr>file_path = repo_path, line = Some (int i + 1), message = msg,
               severity = Some sev, issue_type = ''security'', code = Some check_name,
               suggestion = Some (get_suggestion check_name)\<rparr>]
        else [])"
proof (cases "k = check_name")
  case False
  then show ?thesis
    by (auto simp: pattern_issues_def filter_map comp_def filter_empty_conv)
next
  case True
  let ?mk = "\<lambda>(j :: nat, l :: string). \<lparr>file_path = repo_path, line = Some (int j + 1),
      message = msg, severity = Some sev, issue_type = ''security'', code = Some check_name,
      suggestion = Some (get_suggestion check_name)\<rparr>"
  let ?P = "\<lambda>l. re_search True pat l \<noteq> None"
  have "filter (\<lambda>x. code x = Some k \<and> line x = Some (int i + 1))
          (pattern_issues repo_path ls (check_name, pat, msg, sev))
      = map ?mk (filter (\<lambda>(j, l). j = i \<and> ?P l) (zip [0..<length ls] ls))"
    unfolding pattern_issues_def using True
    by (simp add: filter_map comp_def case_prod_unfold conj_commute)
  then show ?thesis using True by (simp add: zip_filter_index)
qed

text \<open>
  Claim C8, as the code has it. For every line of a file, the pattern scanner produces
  exactly one issue of the hardcoded-secret rule when the rule's pattern is found in the
  line, and none otherwise; the issue is critical, carries the rule id
  \<open>hardcoded_secrets\<close> and the rule's fixed suggestion. The pattern asks for one of the
  five words, an optional s, a colon or equals sign within quotes and white space, and a
  quoted literal of one or more word characters, in any letter case.
\<close>

theorem hardcoded_secret_issue:
  "filter (\<lambda>x. code x = Some ''hardcoded_secrets'' \<and> line x = Some (int i + 1))
          (check_security_patterns content repo_path)
     = (if i < length (splitlines content)
           \<and> re_search True hardcoded_secrets (splitlines content ! i) \<noteq> None
        then [\<lparr>file_path = repo_path, line = Some (int i + 1),
               message = ''Potential hardcoded secret or credential'',
               severity = Some ''critical'', issue_type = ''security'',
               code = Some ''hardcoded_secrets'',
               suggestion = Some ''Store secrets in environment variables or a secure vault''\<rparr>]
        else [])"
proof -
  have s: "get_suggestion ''hardcoded_secrets''
      = ''Store secrets in environment variables or a secure vault''"
    by (simp add: get_suggestion_def dict_get_default_def)
  show ?thesis
    unfolding check_security_patterns_def security_patterns_def Let_def
    by (simp add: pattern_issues_at s del: filter.simps)
qed

theorem hardcoded_secret_issue_witness:
  "filter (\<lambda>x. code x = Some ''hardcoded_secrets'' \<and> line x = Some (int 1 + 1))
          (check_security_patterns (file_of [''import os'', word_secret]) ''cfg.py'')
     = [\<lparr>file_path = ''cfg.py'', line = Some 2,
         message = ''Potential hardcoded secret or credential'',
         severity = Some ''critical'', issue_type = ''security'',
         code = Some ''hardcoded_secrets'',
         suggestion = Some ''Store secrets in environment variables or a secure vault''\<rparr>]"
proof -
  have "\<forall>l \<in> set [''import os'', word_secret]. \<forall>c \<in> set l. \<not> is_linebreak c" by code_simp
  then have ls: "splitlines (file_of [''import os'', word_secret]) = [''import os'', word_secret]"
    by (rule file_of_lines)
  have m: "re_search True hardcoded_secrets ([''import os'', word_secret] ! 1) \<noteq> None"
    by code_simp
  show ?thesis
    using hardcoded_secret_issue [of 1 "file_of [''import os'', word_secret]" "''cfg.py''"] m
    unfolding ls by simp
qed

text \<open>
  Claim C8, as stated, fails: the line \<open>password = "hunter 2"\<close> assigns a string literal to
  a variable named \<open>password\<close>, and the scanner produces no issue for it, for the literal
  holds a space and the pattern asks for word characters only.
\<close>

theorem spaced_secret_not_reported:
  "spaced_secret = ''password = '' @ [CHR 0x22] @ ''hunter 2'' @ [CHR 0x22]
   \<and> splitlines (file_of [spaced_secret]) = [spaced_secret]
   \<and> check_security_patterns (file_of [spaced_secret]) ''cfg.py'' = []"
proof -
  have 1: "spaced_secret = ''password = '' @ [CHR 0x22] @ ''hunter 2'' @ [CHR 0x22]"
    by (simp add: spaced_secret_def)
  have "\<forall>l \<in> set [spaced_secret]. \<forall>c \<in> set l. \<not> is_linebreak c" by code_simp
  then have 2: "splitlines (file_of [spaced_secret]) = [spaced_secret]"
    by (rule file_of_lines)
  have 3: "check_security_patterns (file_of [spaced_secret]) ''cfg.py'' = []"
    unfolding check_security_patterns_def 2 by code_simp
  from 1 2 3 show ?thesis by blast
qed

end
